theory Spec2Isabelle
  imports Complex_Main "HOL-Library.AList" "HOL-Library.Log_Nat"
begin

section \<open>Errors\<close>

text \<open>
  The Python exceptions that the modelled code can raise. The specification names them
  by role: \<open>InvalidFormat\<close> is the \<open>KeyError\<close> of the enum lookup in \<open>from_str\<close>,
  \<open>InvalidBoundingBox\<close> is the \<open>ValueError\<close> of \<open>__post_init__\<close>, \<open>SampleNotFound\<close> is
  the \<open>KeyError\<close> of the dictionary lookup in \<open>__getitem__\<close>, and \<open>DatasetLoadError\<close>
  stands for whatever reading a file raises (\<open>OSError\<close> here).
\<close>

datatype py_error = KeyError | ValueError | ZeroDivisionError | OverflowError | OSError

section \<open>Bounding boxes (\<open>hoi/structs/_box.py\<close>)\<close>

datatype BoundingBoxFormat = XYXY | XYWH | CXCYWH

text \<open>
  \<open>from_str\<close> is \<open>cls[s.upper().strip()]\<close>: the string is upper-cased, then stripped of
  surrounding whitespace, then looked up among the member names of the enumeration; a
  missing name raises \<open>KeyError\<close>.

  A \<open>char\<close> stands for a code point below 256. \<open>isspace\<close> holds of the code points
  that Python's \<open>str.strip()\<close> removes in that range. \<open>upper\<close> changes the ASCII
  letters only: Python also changes some characters outside ASCII, but none of them
  into one of the letters of the three member names (\<open>sharp s\<close> becomes \<open>SS\<close>), so the
  result of the lookup is the same.
\<close>

definition isspace :: "char \<Rightarrow> bool" where
  "isspace c \<longleftrightarrow> (of_char c :: nat) \<in> {9, 10, 11, 12, 13, 28, 29, 30, 31, 32, 133, 160}"

definition upper_char :: "char \<Rightarrow> char" where
  "upper_char c =
     (if 97 \<le> (of_char c :: nat) \<and> (of_char c :: nat) \<le> 122
      then char_of ((of_char c :: nat) - 32) else c)"

definition upper :: "string \<Rightarrow> string" where
  "upper s = map upper_char s"

definition strip :: "string \<Rightarrow> string" where
  "strip s = rev (dropWhile isspace (rev (dropWhile isspace s)))"

definition member_map :: "(string \<times> BoundingBoxFormat) list" where
  "member_map = [(''XYXY'', XYXY), (''XYWH'', XYWH), (''CXCYWH'', CXCYWH)]"

definition from_str :: "string \<Rightarrow> py_error + BoundingBoxFormat" where
  "from_str s =
     (case map_of member_map (strip (upper s)) of
        None \<Rightarrow> Inl KeyError
      | Some f \<Rightarrow> Inr f)"

fun member_name :: "BoundingBoxFormat \<Rightarrow> string" where
  "member_name XYXY = ''XYXY''"
| "member_name XYWH = ''XYWH''"
| "member_name CXCYWH = ''CXCYWH''"

text \<open>
  A frozen dataclass, with the type of a coordinate as a parameter: \<open>real\<close> where
  the arithmetic is taken as exact, \<open>float\<close> (below) where every operation rounds as
  Python's does. The field
  \<open>coordinates\<close> is a 4-tuple, as its annotation says and as \<open>__post_init__\<close> enforces;
  the length check itself is in \<open>BoundingBox_init\<close>, which takes an arbitrary sequence.
\<close>

record 'a BoundingBox =
  coordinates :: "'a \<times> 'a \<times> 'a \<times> 'a"
  format :: BoundingBoxFormat
  normalized :: bool

definition BoundingBox_init ::
  "real list \<Rightarrow> BoundingBoxFormat \<Rightarrow> bool \<Rightarrow> py_error + real BoundingBox" where
  "BoundingBox_init cs f n =
     (if length cs \<noteq> 4 then Inl ValueError
      else Inr \<lparr>coordinates = (cs ! 0, cs ! 1, cs ! 2, cs ! 3), format = f, normalized = n\<rparr>)"

text \<open>
  The three conversions with the formulas as they are written, in exact arithmetic.
\<close>

definition to_xyxy :: "real BoundingBox \<Rightarrow> real BoundingBox" where
  "to_xyxy self =
     (case format self of
        XYXY \<Rightarrow> self
      | XYWH \<Rightarrow>
          (case coordinates self of (xmin, ymin, w, h) \<Rightarrow>
            \<lparr>coordinates = (xmin, ymin, xmin + w, ymin + h),
             format = XYXY, normalized = normalized self\<rparr>)
      | CXCYWH \<Rightarrow>
          (case coordinates self of (cx, cy, w, h) \<Rightarrow>
            \<lparr>coordinates = (cx - w / 2, cy - h / 2, cx + w / 2, cy + h / 2),
             format = XYXY, normalized = normalized self\<rparr>))"

definition to_xywh :: "real BoundingBox \<Rightarrow> real BoundingBox" where
  "to_xywh self =
     (case format self of
        XYWH \<Rightarrow> self
      | XYXY \<Rightarrow>
          (case coordinates self of (xmin, ymin, xmax, ymax) \<Rightarrow>
            \<lparr>coordinates = (xmin, ymin, xmax - xmin, ymax - ymin),
             format = XYWH, normalized = normalized self\<rparr>)
      | CXCYWH \<Rightarrow>
          (case coordinates self of (cx, cy, w, h) \<Rightarrow>
            \<lparr>coordinates = (cx - w / 2, cy - h / 2, w, h),
             format = XYWH, normalized = normalized self\<rparr>))"

definition to_cxcywh :: "real BoundingBox \<Rightarrow> real BoundingBox" where
  "to_cxcywh self =
     (case format self of
        CXCYWH \<Rightarrow> self
      | XYXY \<Rightarrow>
          (case coordinates self of (xmin, ymin, xmax, ymax) \<Rightarrow>
            \<lparr>coordinates = ((xmin + xmax) / 2, (ymin + ymax) / 2, xmax - xmin, ymax - ymin),
             format = CXCYWH, normalized = normalized self\<rparr>)
      | XYWH \<Rightarrow>
          (case coordinates self of (xmin, ymin, w, h) \<Rightarrow>
            \<lparr>coordinates = (xmin + w / 2, ymin + h / 2, w, h),
             format = CXCYWH, normalized = normalized self\<rparr>))"

subsection \<open>Floating-point numbers\<close>

text \<open>
  A Python \<open>float\<close> is an IEEE 754 binary64 number: a finite one, an infinity or NaN.
  The two zeros are one value here; they are equal in Python, and no operation below
  tells them apart. A finite float is the real number it denotes.

  An arithmetic operation returns the exact result rounded to the nearest binary64
  number, ties to the even significand. \<open>binary64 x\<close> is that number when the exponent
  is not bounded above: the multiple of \<open>2 powi t\<close> nearest to \<open>x\<close>, where
  \<open>t = ulp_exponent x\<close> is 52 below the exponent of \<open>x\<close>, and \<open>- 1074\<close> for the subnormal
  numbers. \<open>round_float\<close> adds the overflow: a result that rounds to \<open>2 ^ 1024\<close> or
  beyond is an infinity.
\<close>

datatype float = Finite real | PosInf | NegInf | NaN

definition round_half_even :: "real \<Rightarrow> int" where
  "round_half_even x =
     (let f = \<lfloor>x\<rfloor>; d = x - of_int f
      in if d < 1 / 2 then f
         else if 1 / 2 < d then f + 1
         else if even f then f else f + 1)"

definition ulp_exponent :: "real \<Rightarrow> int" where
  "ulp_exponent x = max (bitlen \<lfloor>\<bar>x\<bar> * 2 ^ 1074\<rfloor> - 1127) (- 1074)"

definition binary64 :: "real \<Rightarrow> real" where
  "binary64 x =
     (let t = ulp_exponent x
      in sgn x * of_int (round_half_even (\<bar>x\<bar> / 2 powi t)) * 2 powi t)"

definition round_float :: "real \<Rightarrow> float" where
  "round_float x =
     (let y = binary64 x
      in if 2 ^ 1024 \<le> y then PosInf
         else if y \<le> - (2 ^ 1024) then NegInf
         else Finite y)"

text \<open>
  Two constants of the error analysis: \<open>eta\<close> is half the least positive float, the
  largest error of a rounding in the subnormal range, and \<open>big\<close> bounds the magnitudes
  for which no operation below overflows.
\<close>

definition eta :: real where
  "eta = 2 powi (- 1075)"

definition big :: real where
  "big = 2 ^ 1020"

fun fadd :: "float \<Rightarrow> float \<Rightarrow> float" where
  "fadd (Finite a) (Finite b) = round_float (a + b)"
| "fadd NaN y = NaN"
| "fadd x NaN = NaN"
| "fadd PosInf NegInf = NaN"
| "fadd NegInf PosInf = NaN"
| "fadd PosInf y = PosInf"
| "fadd NegInf y = NegInf"
| "fadd x PosInf = PosInf"
| "fadd x NegInf = NegInf"

fun fsub :: "float \<Rightarrow> float \<Rightarrow> float" where
  "fsub (Finite a) (Finite b) = round_float (a - b)"
| "fsub NaN y = NaN"
| "fsub x NaN = NaN"
| "fsub PosInf PosInf = NaN"
| "fsub NegInf NegInf = NaN"
| "fsub PosInf y = PosInf"
| "fsub NegInf y = NegInf"
| "fsub x PosInf = NegInf"
| "fsub x NegInf = PosInf"

text \<open>
  Multiplication and division by a finite float \<open>d\<close>, given as the real number it
  denotes; the divisor is not zero.
\<close>

fun fmul :: "float \<Rightarrow> real \<Rightarrow> float" where
  "fmul (Finite a) d = round_float (a * d)"
| "fmul NaN d = NaN"
| "fmul PosInf d = (if d = 0 then NaN else if 0 < d then PosInf else NegInf)"
| "fmul NegInf d = (if d = 0 then NaN else if 0 < d then NegInf else PosInf)"

fun fdiv :: "float \<Rightarrow> real \<Rightarrow> float" where
  "fdiv (Finite a) d = round_float (a / d)"
| "fdiv NaN d = NaN"
| "fdiv PosInf d = (if 0 < d then PosInf else NegInf)"
| "fdiv NegInf d = (if 0 < d then NegInf else PosInf)"

text \<open>
  The operations of a \<open>float\<close> with an \<open>int\<close>, as \<open>float.__truediv__\<close> and
  \<open>float.__mul__\<close> do them: the \<open>int\<close> is converted to \<open>float\<close> first, rounded, and
  one that rounds to \<open>2 ^ 1024\<close> or beyond raises \<open>OverflowError\<close>; then a zero divisor
  raises \<open>ZeroDivisionError\<close>; then the operation is the one of two floats. \<open>half x\<close>
  is \<open>x / 2\<close>.
\<close>

definition float_of_int :: "int \<Rightarrow> py_error + real" where
  "float_of_int n =
     (case round_float (real_of_int n) of
        Finite d \<Rightarrow> Inr d
      | _ \<Rightarrow> Inl OverflowError)"

definition truediv :: "float \<Rightarrow> int \<Rightarrow> py_error + float" where
  "truediv x n =
     (case float_of_int n of
        Inl e \<Rightarrow> Inl e
      | Inr d \<Rightarrow> if d = 0 then Inl ZeroDivisionError else Inr (fdiv x d))"

definition mul_int :: "float \<Rightarrow> int \<Rightarrow> py_error + float" where
  "mul_int x n =
     (case float_of_int n of
        Inl e \<Rightarrow> Inl e
      | Inr d \<Rightarrow> Inr (fmul x d))"

definition half :: "float \<Rightarrow> float" where
  "half x = fdiv x 2"

subsection \<open>The operations on boxes of floats\<close>

text \<open>
  \<open>normalize\<close> divides by the two components of \<open>size\<close>, which are Python \<open>int\<close>s. The
  tuple of the four quotients is evaluated left to right, so the division by \<open>w\<close> is
  reached first, and the first error is the one raised. The method is
  \<open>normalize_box\<close> here, since \<open>normalize\<close> is a constant of the library.
\<close>

definition normalize_box ::
  "float BoundingBox \<Rightarrow> int \<times> int \<Rightarrow> py_error + float BoundingBox" where
  "normalize_box self sz =
     (if normalized self then Inr self
      else
        (case sz of (w, h) \<Rightarrow>
          (case coordinates self of (c0, c1, c2, c3) \<Rightarrow>
            (case truediv c0 w of Inl e \<Rightarrow> Inl e | Inr n0 \<Rightarrow>
            (case truediv c1 h of Inl e \<Rightarrow> Inl e | Inr n1 \<Rightarrow>
            (case truediv c2 w of Inl e \<Rightarrow> Inl e | Inr n2 \<Rightarrow>
            (case truediv c3 h of Inl e \<Rightarrow> Inl e | Inr n3 \<Rightarrow>
               Inr \<lparr>coordinates = (n0, n1, n2, n3),
                    format = format self, normalized = True\<rparr>)))))))"

definition denormalize ::
  "float BoundingBox \<Rightarrow> int \<times> int \<Rightarrow> py_error + float BoundingBox" where
  "denormalize self sz =
     (if \<not> normalized self then Inr self
      else
        (case sz of (w, h) \<Rightarrow>
          (case coordinates self of (c0, c1, c2, c3) \<Rightarrow>
            (case mul_int c0 w of Inl e \<Rightarrow> Inl e | Inr d0 \<Rightarrow>
            (case mul_int c1 h of Inl e \<Rightarrow> Inl e | Inr d1 \<Rightarrow>
            (case mul_int c2 w of Inl e \<Rightarrow> Inl e | Inr d2 \<Rightarrow>
            (case mul_int c3 h of Inl e \<Rightarrow> Inl e | Inr d3 \<Rightarrow>
               Inr \<lparr>coordinates = (d0, d1, d2, d3),
                    format = format self, normalized = False\<rparr>)))))))"

definition to_xyxy_float :: "float BoundingBox \<Rightarrow> float BoundingBox" where
  "to_xyxy_float self =
     (case format self of
        XYXY \<Rightarrow> self
      | XYWH \<Rightarrow>
          (case coordinates self of (xmin, ymin, w, h) \<Rightarrow>
            \<lparr>coordinates = (xmin, ymin, fadd xmin w, fadd ymin h),
             format = XYXY, normalized = normalized self\<rparr>)
      | CXCYWH \<Rightarrow>
          (case coordinates self of (cx, cy, w, h) \<Rightarrow>
            \<lparr>coordinates =
               (fsub cx (half w), fsub cy (half h), fadd cx (half w), fadd cy (half h)),
             format = XYXY, normalized = normalized self\<rparr>))"

definition to_xywh_float :: "float BoundingBox \<Rightarrow> float BoundingBox" where
  "to_xywh_float self =
     (case format self of
        XYWH \<Rightarrow> self
      | XYXY \<Rightarrow>
          (case coordinates self of (xmin, ymin, xmax, ymax) \<Rightarrow>
            \<lparr>coordinates = (xmin, ymin, fsub xmax xmin, fsub ymax ymin),
             format = XYWH, normalized = normalized self\<rparr>)
      | CXCYWH \<Rightarrow>
          (case coordinates self of (cx, cy, w, h) \<Rightarrow>
            \<lparr>coordinates = (fsub cx (half w), fsub cy (half h), w, h),
             format = XYWH, normalized = normalized self\<rparr>))"

definition to_cxcywh_float :: "float BoundingBox \<Rightarrow> float BoundingBox" where
  "to_cxcywh_float self =
     (case format self of
        CXCYWH \<Rightarrow> self
      | XYXY \<Rightarrow>
          (case coordinates self of (xmin, ymin, xmax, ymax) \<Rightarrow>
            \<lparr>coordinates =
               (half (fadd xmin xmax), half (fadd ymin ymax),
                fsub xmax xmin, fsub ymax ymin),
             format = CXCYWH, normalized = normalized self\<rparr>)
      | XYWH \<Rightarrow>
          (case coordinates self of (xmin, ymin, w, h) \<Rightarrow>
            \<lparr>coordinates = (fadd xmin (half w), fadd ymin (half h), w, h),
             format = CXCYWH, normalized = normalized self\<rparr>))"

definition convert :: "float BoundingBox \<Rightarrow> BoundingBoxFormat \<Rightarrow> float BoundingBox" where
  "convert self f =
     (case f of
        XYXY \<Rightarrow> to_xyxy_float self
      | XYWH \<Rightarrow> to_xywh_float self
      | CXCYWH \<Rightarrow> to_cxcywh_float self)"

section \<open>Samples (\<open>hoi/structs/_sample.py\<close>)\<close>

text \<open>
  \<open>SampleID\<close> is a \<open>NewType\<close> of \<open>str\<close>, so an identifier is a string. A \<open>Path\<close> is the
  list of its components, and \<open>/\<close> appends a component: the identifiers are taken as
  plain file names, without a slash, which \<open>pathlib\<close> would split or re-root the path
  on.
\<close>

record Entity =
  bbox :: "real BoundingBox"
  category :: string

record Action =
  verb :: string
  subject :: int
  target :: "int option"
  instrument :: "int option"

record Sample =
  image_path :: "string list"
  entities :: "Entity list"
  actions :: "Action list"
  splits :: "string list"

section \<open>The H2O dataset (\<open>hoi/datasets/_h2o.py\<close>)\<close>

text \<open>
  The parsed content of the JSON files: what \<open>json.load\<close> returns for a manifest whose
  records have all their keys (a record that lacks one raises \<open>KeyError\<close> and is outside
  the model). A file that cannot be read or parsed is an error value in
  \<open>dataset_files\<close>, which stands for the directory of the dataset.
\<close>

record entity_data =
  ed_bbox :: "real list"
  ed_category :: string

record action_data =
  ad_verb :: string
  ad_subject :: int
  ad_target :: "int option"
  ad_instrument :: "int option"

record sample_data =
  sd_id :: string
  sd_entities :: "entity_data list"
  sd_actions :: "action_data list"

record dataset_files =
  categories_json :: "py_error + string list"
  verbs_json :: "py_error + string list"
  split_json :: "string \<Rightarrow> py_error + sample_data list"

record H2ODataset =
  ds_path :: "string list"
  ds_categories :: "string list"
  ds_verbs :: "string list"
  ds_samples :: "(string \<times> Sample) list"

text \<open>
  \<open>_get_samples\<close> builds the entities, the actions and the sample of each record, in
  order; the first bounding box with a wrong number of coordinates raises and aborts
  the whole call.
\<close>

fun get_entities :: "entity_data list \<Rightarrow> py_error + Entity list" where
  "get_entities [] = Inr []"
| "get_entities (e # es) =
     (case BoundingBox_init (ed_bbox e) XYXY True of
        Inl err \<Rightarrow> Inl err
      | Inr b \<Rightarrow>
          (case get_entities es of
             Inl err \<Rightarrow> Inl err
           | Inr r \<Rightarrow> Inr (\<lparr>bbox = b, category = ed_category e\<rparr> # r)))"

definition get_actions :: "action_data list \<Rightarrow> Action list" where
  "get_actions as =
     map (\<lambda>a. \<lparr>verb = ad_verb a, subject = ad_subject a, target = ad_target a,
               instrument = ad_instrument a\<rparr>) as"

definition get_sample :: "string list \<Rightarrow> string \<Rightarrow> sample_data \<Rightarrow> py_error + string \<times> Sample" where
  "get_sample path split d =
     (let i = sd_id d;
          image = path @ [''images'', split, i @ ''.jpg'']
      in case get_entities (sd_entities d) of
           Inl err \<Rightarrow> Inl err
         | Inr es \<Rightarrow>
             Inr (i, \<lparr>image_path = image, entities = es,
                      actions = get_actions (sd_actions d), splits = [split]\<rparr>))"

fun build_samples :: "string list \<Rightarrow> string \<Rightarrow> sample_data list \<Rightarrow> py_error + (string \<times> Sample) list" where
  "build_samples path split [] = Inr []"
| "build_samples path split (d # ds) =
     (case get_sample path split d of
        Inl err \<Rightarrow> Inl err
      | Inr p \<Rightarrow>
          (case build_samples path split ds of
             Inl err \<Rightarrow> Inl err
           | Inr ps \<Rightarrow> Inr (p # ps)))"

definition get_samples :: "string list \<Rightarrow> dataset_files \<Rightarrow> string \<Rightarrow> py_error + (string \<times> Sample) list" where
  "get_samples path fs split =
     (case split_json fs split of
        Inl err \<Rightarrow> Inl err
      | Inr data \<Rightarrow> build_samples path split data)"

text \<open>
  \<open>__init__\<close> reads the categories and the verbs, then fills the dictionary
  \<open>_samples\<close> by a comprehension over the splits \<open>["train", "test"]\<close> in this order. A
  Python \<open>dict\<close> is an association list without duplicate keys, in insertion order:
  storing under a key that is present replaces the value and keeps the key's position
  (\<open>AList.update\<close>).
\<close>

definition H2O_splits :: "string list" where
  "H2O_splits = [''train'', ''test'']"

definition dict_insert_all :: "(string \<times> Sample) list \<Rightarrow> (string \<times> Sample) list \<Rightarrow> (string \<times> Sample) list" where
  "dict_insert_all d ps = foldl (\<lambda>d (k, v). AList.update k v d) d ps"

fun comprehension ::
  "string list \<Rightarrow> dataset_files \<Rightarrow> string list \<Rightarrow> (string \<times> Sample) list
     \<Rightarrow> py_error + (string \<times> Sample) list" where
  "comprehension path fs [] d = Inr d"
| "comprehension path fs (split # rest) d =
     (case get_samples path fs split of
        Inl err \<Rightarrow> Inl err
      | Inr ps \<Rightarrow> comprehension path fs rest (dict_insert_all d ps))"

definition H2ODataset_init :: "string list \<Rightarrow> dataset_files \<Rightarrow> py_error + H2ODataset" where
  "H2ODataset_init path fs =
     (case categories_json fs of
        Inl err \<Rightarrow> Inl err
      | Inr cats \<Rightarrow>
          (case verbs_json fs of
             Inl err \<Rightarrow> Inl err
           | Inr vs \<Rightarrow>
               (case comprehension path fs H2O_splits [] of
                  Inl err \<Rightarrow> Inl err
                | Inr d \<Rightarrow>
                    Inr \<lparr>ds_path = path, ds_categories = cats, ds_verbs = vs,
                         ds_samples = d\<rparr>)))"

definition len :: "H2ODataset \<Rightarrow> nat" where
  "len ds = length (ds_samples ds)"

definition getitem :: "H2ODataset \<Rightarrow> string \<Rightarrow> py_error + Sample" where
  "getitem ds i =
     (case map_of (ds_samples ds) i of
        None \<Rightarrow> Inl KeyError
      | Some s \<Rightarrow> Inr s)"

section \<open>Properties of the bounding-box operations\<close>

lemma format_to_xyxy: "format (to_xyxy b) = XYXY"
  by (cases b) (simp add: to_xyxy_def split: BoundingBoxFormat.split prod.split)

lemma format_to_xywh: "format (to_xywh b) = XYWH"
  by (cases b) (simp add: to_xywh_def split: BoundingBoxFormat.split prod.split)

lemma format_to_cxcywh: "format (to_cxcywh b) = CXCYWH"
  by (cases b) (simp add: to_cxcywh_def split: BoundingBoxFormat.split prod.split)

text \<open>
  C1. \<open>to_xyxy\<close> sends XYWH coordinates \<open>(x, y, w, h)\<close> to \<open>(x, y, x + w, y + h)\<close> and
  CXCYWH coordinates \<open>(cx, cy, w, h)\<close> to \<open>(cx - w/2, cy - h/2, cx + w/2, cy + h/2)\<close>;
  \<open>to_xywh\<close> sends XYXY coordinates \<open>(xmin, ymin, xmax, ymax)\<close> to
  \<open>(xmin, ymin, xmax - xmin, ymax - ymin)\<close>. In particular XYWH \<open>(10, 20, 30, 40)\<close> and
  CXCYWH \<open>(25, 40, 30, 40)\<close> both become XYXY \<open>(10, 20, 40, 60)\<close>, and XYXY
  \<open>(10, 20, 40, 60)\<close> becomes XYWH \<open>(10, 20, 30, 40)\<close>.
\<close>

theorem conversion_formulas:
  "to_xyxy \<lparr>coordinates = (x, y, w, h), format = XYWH, normalized = n\<rparr>
     = \<lparr>coordinates = (x, y, x + w, y + h), format = XYXY, normalized = n\<rparr>
   \<and> to_xyxy \<lparr>coordinates = (cx, cy, w, h), format = CXCYWH, normalized = n\<rparr>
     = \<lparr>coordinates = (cx - w / 2, cy - h / 2, cx + w / 2, cy + h / 2),
        format = XYXY, normalized = n\<rparr>
   \<and> to_xywh \<lparr>coordinates = (xmin, ymin, xmax, ymax), format = XYXY, normalized = n\<rparr>
     = \<lparr>coordinates = (xmin, ymin, xmax - xmin, ymax - ymin),
        format = XYWH, normalized = n\<rparr>
   \<and> to_xyxy \<lparr>coordinates = (10, 20, 30, 40), format = XYWH, normalized = n\<rparr>
     = \<lparr>coordinates = (10, 20, 40, 60), format = XYXY, normalized = n\<rparr>
   \<and> to_xyxy \<lparr>coordinates = (25, 40, 30, 40), format = CXCYWH, normalized = n\<rparr>
     = \<lparr>coordinates = (10, 20, 40, 60), format = XYXY, normalized = n\<rparr>
   \<and> to_xywh \<lparr>coordinates = (10, 20, 40, 60), format = XYXY, normalized = n\<rparr>
     = \<lparr>coordinates = (10, 20, 30, 40), format = XYWH, normalized = n\<rparr>"
  by (simp add: to_xyxy_def to_xywh_def)

text \<open>
  C5. Each of \<open>to_xyxy\<close>, \<open>to_xywh\<close>, \<open>to_cxcywh\<close> keeps the \<open>normalized\<close> flag, returns
  the receiver itself when it is already in the target format, and is therefore
  idempotent.
\<close>

theorem conversions_keep_normalized_and_are_idempotent:
  "normalized (to_xyxy b) = normalized b
   \<and> normalized (to_xywh b) = normalized b
   \<and> normalized (to_cxcywh b) = normalized b
   \<and> (format b = XYXY \<longrightarrow> to_xyxy b = b)
   \<and> (format b = XYWH \<longrightarrow> to_xywh b = b)
   \<and> (format b = CXCYWH \<longrightarrow> to_cxcywh b = b)
   \<and> to_xyxy (to_xyxy b) = to_xyxy b
   \<and> to_xywh (to_xywh b) = to_xywh b
   \<and> to_cxcywh (to_cxcywh b) = to_cxcywh b"
proof -
  have n: "normalized (to_xyxy b) = normalized b" "normalized (to_xywh b) = normalized b"
    "normalized (to_cxcywh b) = normalized b"
    by (simp_all add: to_xyxy_def to_xywh_def to_cxcywh_def
        split: BoundingBoxFormat.split prod.split)
  have s: "format c = XYXY \<Longrightarrow> to_xyxy c = c" "format c = XYWH \<Longrightarrow> to_xywh c = c"
    "format c = CXCYWH \<Longrightarrow> to_cxcywh c = c" for c
    by (simp_all add: to_xyxy_def to_xywh_def to_cxcywh_def)
  show ?thesis
    using n s [of b] s(1) [OF format_to_xyxy] s(2) [OF format_to_xywh]
      s(3) [OF format_to_cxcywh]
    by simp
qed

theorem conversions_keep_normalized_and_are_idempotent_witness:
  "format \<lparr>coordinates = (10, 20, 40, 60), format = XYXY, normalized = True\<rparr> = XYXY
   \<and> to_xyxy \<lparr>coordinates = (10, 20, 40, 60), format = XYXY, normalized = True\<rparr>
     = \<lparr>coordinates = (10, 20, 40, 60), format = XYXY, normalized = True\<rparr>
   \<and> normalized (to_xywh \<lparr>coordinates = (10, 20, 40, 60), format = XYXY, normalized = True\<rparr>)"
  using conversions_keep_normalized_and_are_idempotent
    [of "\<lparr>coordinates = (10, 20, 40, 60), format = XYXY, normalized = True\<rparr>"]
  by simp

text \<open>
  C7. Constructing a bounding box from a coordinate sequence whose length is not 4 (for
  instance 3) raises \<open>ValueError\<close>, the specification's \<open>InvalidBoundingBox\<close>; with exactly
  4 coordinates the construction succeeds and stores them.
\<close>

theorem BoundingBox_init_checks_length:
  "(length cs \<noteq> 4 \<longrightarrow> BoundingBox_init cs f n = Inl ValueError)
   \<and> BoundingBox_init [a, b, c] f n = Inl ValueError
   \<and> BoundingBox_init [a, b, c, d] f n
       = Inr \<lparr>coordinates = (a, b, c, d), format = f, normalized = n\<rparr>
   \<and> (length cs = 4 \<longrightarrow> (\<exists>box. BoundingBox_init cs f n = Inr box))"
  by (simp add: BoundingBox_init_def)

theorem BoundingBox_init_checks_length_witness:
  "length [1, 2, 3, 4, 5 :: real] \<noteq> 4
   \<and> BoundingBox_init [1, 2, 3, 4, 5] XYXY True = Inl ValueError
   \<and> length [1, 2, 3, 4 :: real] = 4
   \<and> (\<exists>box. BoundingBox_init [1, 2, 3, 4] XYXY True = Inr box)"
  using BoundingBox_init_checks_length [of "[1, 2, 3, 4, 5]" XYXY True]
    BoundingBox_init_checks_length [of "[1, 2, 3, 4]" XYXY True]
  by simp

section \<open>Rounding\<close>

text \<open>
  The exponent of the spacing around a number that lies between two consecutive powers
  of two, and the error of one rounding: at most \<open>2 powi (- 53)\<close> of the magnitude, plus
  \<open>eta\<close> where the result is subnormal.
\<close>

lemma bitlen_eq:
  assumes "2 ^ k \<le> n" "n < 2 ^ (k + 1)"
  shows "bitlen n = int k + 1"
proof (rule antisym)
  show "bitlen n \<le> int k + 1"
    using assms(2) by (simp add: bitlen_le_iff_power nat_add_distrib)
  show "int k + 1 \<le> bitlen n"
    using assms(1) by (simp add: bitlen_ge_iff_power nat_add_distrib)
qed

lemma ulp_exponent_eq:
  assumes "2 powi e \<le> \<bar>x\<bar>" "\<bar>x\<bar> < 2 powi (e + 1)" "- 1074 \<le> e"
  shows "ulp_exponent x = max (e - 52) (- 1074)"
proof -
  define k where "k = nat (e + 1074)"
  have e: "e = int k - 1074" using assms(3) by (simp add: k_def)
  have p: "(2::real) powi e * 2 ^ 1074 = 2 ^ k"
    unfolding e by (simp add: power_int_diff)
  have p1: "(2::real) powi (e + 1) * 2 ^ 1074 = 2 ^ (k + 1)"
    using p by (simp add: power_int_add)
  have "2 ^ k \<le> \<bar>x\<bar> * 2 ^ 1074"
    using assms(1) p by (metis mult_right_mono zero_le_numeral zero_le_power)
  then have lo: "2 ^ k \<le> \<lfloor>\<bar>x\<bar> * 2 ^ 1074\<rfloor>"
    by (simp add: le_floor_iff)
  have "\<bar>x\<bar> * 2 ^ 1074 < 2 ^ (k + 1)"
    using assms(2) p1 by (metis mult_strict_right_mono zero_less_numeral zero_less_power)
  then have hi: "\<lfloor>\<bar>x\<bar> * 2 ^ 1074\<rfloor> < 2 ^ (k + 1)"
    by (simp add: floor_less_iff)
  have "bitlen \<lfloor>\<bar>x\<bar> * 2 ^ 1074\<rfloor> = int k + 1" using lo hi by (rule bitlen_eq)
  then show ?thesis by (simp add: ulp_exponent_def e)
qed

lemma round_half_even_error: "\<bar>real_of_int (round_half_even y) - y\<bar> \<le> 1 / 2"
  unfolding round_half_even_def Let_def by (auto; linarith)

lemma binary64_error_ulp: "\<bar>binary64 x - x\<bar> \<le> 2 powi (ulp_exponent x) / 2"
proof -
  define t where "t = ulp_exponent x"
  define y where "y = \<bar>x\<bar> / 2 powi t"
  have p: "(0::real) < 2 powi t" by simp
  have x: "x = sgn x * y * 2 powi t"
    using p by (simp add: y_def sgn_mult_abs)
  have "binary64 x - x = sgn x * (real_of_int (round_half_even y) - y) * 2 powi t"
    unfolding binary64_def Let_def t_def [symmetric] y_def [symmetric]
    using x by (simp add: algebra_simps)
  then have "\<bar>binary64 x - x\<bar> = \<bar>sgn x\<bar> * \<bar>real_of_int (round_half_even y) - y\<bar> * 2 powi t"
    using p by (simp add: abs_mult)
  also have "\<dots> \<le> 1 * (1 / 2) * 2 powi t"
    using round_half_even_error [of y] p
    by (intro mult_mono mult_nonneg_nonneg) (auto simp add: abs_sgn_eq)
  finally show ?thesis by (simp add: t_def)
qed

lemma exponent_exists:
  assumes "x \<noteq> (0::real)"
  shows "\<exists>e::int. 2 powi e \<le> \<bar>x\<bar> \<and> \<bar>x\<bar> < 2 powi (e + 1)"
proof -
  define e where "e = \<lfloor>log 2 \<bar>x\<bar>\<rfloor>"
  have pos: "0 < \<bar>x\<bar>" using assms by simp
  have "2 powr (real_of_int e) \<le> \<bar>x\<bar> \<and> \<bar>x\<bar> < 2 powr (real_of_int e + 1)"
    using floor_log_eq_powr_iff [OF pos, of 2 e] by (simp add: e_def)
  moreover have "(2::real) powr (real_of_int e) = 2 powi e"
    by (rule powr_real_of_int') simp_all
  moreover have "(2::real) powr (real_of_int e + 1) = 2 powi (e + 1)"
    using powr_real_of_int' [of 2 "e + 1"] by simp
  ultimately show ?thesis by auto
qed

lemma ulp_exponent_small:
  assumes "\<bar>x\<bar> < 2 powi (- 1074)"
  shows "ulp_exponent x = - 1074"
proof -
  have "\<bar>x\<bar> * 2 ^ 1074 < 1"
    using assms by (simp add: power_int_minus field_simps)
  then have "\<lfloor>\<bar>x\<bar> * 2 ^ 1074\<rfloor> = 0"
    by (simp add: floor_eq_iff)
  then show ?thesis by (simp add: ulp_exponent_def)
qed

lemma ulp_exponent_bound: "2 powi (ulp_exponent x) \<le> \<bar>x\<bar> / 2 ^ 52 + 2 powi (- 1074)"
proof (cases "\<bar>x\<bar> < 2 powi (- 1074)")
  case True
  then show ?thesis by (simp add: ulp_exponent_small)
next
  case False
  then have nz: "x \<noteq> 0" by auto
  from exponent_exists [OF nz] obtain e where
    e: "2 powi e \<le> \<bar>x\<bar>" "\<bar>x\<bar> < 2 powi (e + 1)" by blast
  from False e(2) have "(2::real) powi (- 1074) < 2 powi (e + 1)" by linarith
  then have ge: "- 1074 \<le> e"
    using power_int_increasing [of "e + 1" "- 1074" "2::real"] by force
  have t: "ulp_exponent x = max (e - 52) (- 1074)"
    using e ge by (rule ulp_exponent_eq)
  have "(2::real) powi (e - 52) = 2 powi e / 2 ^ 52"
    by (simp add: power_int_diff)
  also have "\<dots> \<le> \<bar>x\<bar> / 2 ^ 52" using e(1) by (simp add: divide_right_mono)
  finally have a: "(2::real) powi (e - 52) \<le> \<bar>x\<bar> / 2 ^ 52" .
  show ?thesis
  proof (cases "- 1074 \<le> e - 52")
    case True
    then have "ulp_exponent x = e - 52" using t by simp
    with a show ?thesis by (smt (verit) zero_less_power_int)
  next
    case False
    then have "ulp_exponent x = - 1074" using t by simp
    then show ?thesis by simp
  qed
qed

lemma binary64_error: "\<bar>binary64 x - x\<bar> \<le> \<bar>x\<bar> / 2 ^ 53 + 2 powi (- 1075)"
proof -
  have "(2::real) powi (- 1075) = 2 powi (- 1074) / 2"
    by (simp add: power_int_minus)
  then show ?thesis
    using binary64_error_ulp [of x] ulp_exponent_bound [of x] by simp
qed

lemma eta_small: "(2::real) powi (- 1075) \<le> 1 / 4" "0 < (2::real) powi (- 1075)"
proof -
  have "(2::real) powi (- 1075) \<le> 2 powi (- 2)"
    by (rule power_int_increasing) simp_all
  moreover have "(2::real) powi (- 2) = 1 / 4" by (simp add: power_int_minus)
  ultimately show "(2::real) powi (- 1075) \<le> 1 / 4" by (simp only:)
  show "0 < (2::real) powi (- 1075)" by (rule zero_less_power_int) simp
qed

lemma round_float_Finite:
  assumes "\<bar>x\<bar> \<le> 2 ^ 1023"
  shows "round_float x = Finite (binary64 x)"
proof -
  define B :: real where "B = 2 ^ 1023"
  define \<eta> :: real where "\<eta> = 2 powi (- 1075)"
  have "(1024::nat) = Suc 1023" by simp
  then have p: "(2::real) ^ 1024 = 2 * B" unfolding B_def by (simp only: power_Suc)
  have B1: "1 \<le> B" unfolding B_def by (rule one_le_power) simp
  have eta: "\<eta> \<le> 1 / 4" unfolding \<eta>_def by (rule eta_small)
  have x: "\<bar>x\<bar> \<le> B" using assms unfolding B_def .
  have e: "\<bar>binary64 x - x\<bar> \<le> \<bar>x\<bar> / 2 ^ 53 + \<eta>"
    unfolding \<eta>_def by (rule binary64_error)
  have "\<bar>binary64 x\<bar> < 2 * B" using e x B1 eta by simp
  then have "\<not> 2 * B \<le> binary64 x" "\<not> binary64 x \<le> - (2 * B)" by linarith+
  then show ?thesis
    unfolding round_float_def Let_def p by (simp only: if_False)
qed

lemma eta_bounds: "0 \<le> eta" "eta \<le> 1 / 4"
  using eta_small by (simp_all add: eta_def)

lemma big_ge_1: "1 \<le> big"
  unfolding big_def by (rule one_le_power) simp

lemma big_ge_4: "4 \<le> big"
proof -
  have "(2::real) ^ 2 \<le> 2 ^ 1020" by (rule power_increasing) simp_all
  then show ?thesis by (simp add: big_def)
qed

lemma pow_1023: "(2::real) ^ 1023 = 8 * big"
proof -
  have "(1023::nat) = 3 + 1020" by simp
  then have "(2::real) ^ 1023 = 2 ^ 3 * 2 ^ 1020" by (simp only: power_add)
  then show ?thesis by (simp add: big_def)
qed

lemma binary64_err:
  assumes "\<bar>x\<bar> \<le> b"
  shows "\<bar>binary64 x - x\<bar> \<le> b / 9007199254740992 + eta"
proof -
  have "\<bar>binary64 x - x\<bar> \<le> \<bar>x\<bar> / 2 ^ 53 + eta"
    unfolding eta_def by (rule binary64_error)
  moreover have "\<bar>x\<bar> / 2 ^ 53 \<le> b / 2 ^ 53"
    using assms by (rule divide_right_mono) simp
  ultimately show ?thesis by simp
qed

lemma round_float_ok:
  assumes "\<bar>x\<bar> \<le> 8 * big"
  shows "round_float x = Finite (binary64 x)"
  using assms unfolding pow_1023 [symmetric] by (rule round_float_Finite)

lemma op_add:
  assumes "\<bar>a\<bar> \<le> A" "\<bar>b\<bar> \<le> C" "A + C \<le> 8 * big"
  obtains c where "fadd (Finite a) (Finite b) = Finite c"
    and "\<bar>c - (a + b)\<bar> \<le> (A + C) / 9007199254740992 + eta"
proof
  have le: "\<bar>a + b\<bar> \<le> A + C" using assms by linarith
  with assms show "fadd (Finite a) (Finite b) = Finite (binary64 (a + b))"
    by (simp add: round_float_ok)
  from le show "\<bar>binary64 (a + b) - (a + b)\<bar> \<le> (A + C) / 9007199254740992 + eta"
    by (rule binary64_err)
qed

lemma op_sub:
  assumes "\<bar>a\<bar> \<le> A" "\<bar>b\<bar> \<le> C" "A + C \<le> 8 * big"
  obtains c where "fsub (Finite a) (Finite b) = Finite c"
    and "\<bar>c - (a - b)\<bar> \<le> (A + C) / 9007199254740992 + eta"
proof
  have le: "\<bar>a - b\<bar> \<le> A + C" using assms by linarith
  with assms show "fsub (Finite a) (Finite b) = Finite (binary64 (a - b))"
    by (simp add: round_float_ok)
  from le show "\<bar>binary64 (a - b) - (a - b)\<bar> \<le> (A + C) / 9007199254740992 + eta"
    by (rule binary64_err)
qed

lemma op_half:
  assumes "\<bar>a\<bar> \<le> A" "A \<le> 8 * big"
  obtains c where "half (Finite a) = Finite c"
    and "\<bar>c - a / 2\<bar> \<le> A / 9007199254740992 + eta"
proof
  have le: "\<bar>a / 2\<bar> \<le> A" using assms by linarith
  with assms show "half (Finite a) = Finite (binary64 (a / 2))"
    by (simp add: half_def round_float_ok)
  from le show "\<bar>binary64 (a / 2) - a / 2\<bar> \<le> A / 9007199254740992 + eta"
    by (rule binary64_err)
qed

lemma b64_49: "binary64 49 = 49"
proof -
  have "ulp_exponent 49 = - 47"
    using ulp_exponent_eq [of 5 49] by simp
  then show ?thesis
    by (simp add: binary64_def round_half_even_def Let_def power_int_minus)
qed

lemma b64_q: "binary64 (1 / 49) = 5882252574524729 / 288230376151711744"
proof -
  have "ulp_exponent (1 / 49) = - 58"
    using ulp_exponent_eq [of "- 6" "1 / 49"] by (simp add: power_int_minus)
  then show ?thesis
    by (simp add: binary64_def round_half_even_def Let_def power_int_minus)
qed

lemma b64_r: "binary64 (288230376151711721 / 288230376151711744)
   = 9007199254740991 / 9007199254740992"
proof -
  have "ulp_exponent (288230376151711721 / 288230376151711744) = - 53"
    using ulp_exponent_eq [of "- 1" "288230376151711721 / 288230376151711744"]
    by (simp add: power_int_minus)
  then show ?thesis
    by (simp add: binary64_def round_half_even_def Let_def power_int_minus)
qed

lemma round_half_even_of_int: "round_half_even (of_int m) = m"
  by (simp add: round_half_even_def)

lemma binary64_exact:
  assumes "2 powi e \<le> \<bar>x\<bar>" "\<bar>x\<bar> < 2 powi (e + 1)" "- 1022 \<le> e"
    and m: "\<bar>x\<bar> / 2 powi (e - 52) = of_int m"
  shows "binary64 x = x"
proof -
  have u: "ulp_exponent x = e - 52"
    using ulp_exponent_eq [OF assms(1,2)] assms(3) by simp
  have "of_int m * 2 powi (e - 52) = \<bar>x\<bar>"
    using m by (simp add: field_simps)
  then have "sgn x * of_int m * 2 powi (e - 52) = sgn x * \<bar>x\<bar>"
    by (simp add: mult.assoc)
  then show ?thesis
    by (simp add: binary64_def u m round_half_even_of_int sgn_mult_abs del: of_int_power)
qed

lemma binary64_values:
  "binary64 16 = 16" "binary64 32 = 32" "binary64 48 = 48" "binary64 96 = 96"
  "binary64 64 = 64" "binary64 128 = 128" "binary64 (1 / 4) = 1 / 4" "binary64 (3 / 4) = 3 / 4"
  "binary64 1 = 1" "binary64 10000000000000000 = 10000000000000000"
proof -
  show "binary64 16 = 16"
    by (rule binary64_exact [of 4 _ "16 * 2 ^ 48"]) (simp_all add: power_int_minus)
  show "binary64 32 = 32"
    by (rule binary64_exact [of 5 _ "32 * 2 ^ 47"]) (simp_all add: power_int_minus)
  show "binary64 48 = 48"
    by (rule binary64_exact [of 5 _ "48 * 2 ^ 47"]) (simp_all add: power_int_minus)
  show "binary64 96 = 96"
    by (rule binary64_exact [of 6 _ "96 * 2 ^ 46"]) (simp_all add: power_int_minus)
  show "binary64 64 = 64"
    by (rule binary64_exact [of 6 _ "64 * 2 ^ 46"]) (simp_all add: power_int_minus)
  show "binary64 128 = 128"
    by (rule binary64_exact [of 7 _ "128 * 2 ^ 45"]) (simp_all add: power_int_minus)
  show "binary64 (1 / 4) = 1 / 4"
    by (rule binary64_exact [of "- 2" _ "2 ^ 52"]) (simp_all add: power_int_minus)
  show "binary64 (3 / 4) = 3 / 4"
    by (rule binary64_exact [of "- 1" _ "3 * 2 ^ 51"]) (simp_all add: power_int_minus)
  show "binary64 1 = 1"
    by (rule binary64_exact [of 0 _ "2 ^ 52"]) (simp_all add: power_int_minus)
  show "binary64 10000000000000000 = 10000000000000000"
    by (rule binary64_exact [of 53 _ "5000000000000000"]) (simp_all add: power_int_minus)
qed

lemma b64_tie: "binary64 10000000000000001 = 10000000000000000"
proof -
  have "ulp_exponent 10000000000000001 = 1"
    using ulp_exponent_eq [of 53 10000000000000001] by simp
  then show ?thesis
    by (simp add: binary64_def round_half_even_def Let_def)
qed

lemma b64_2_1024: "binary64 (2 ^ 1024) = 2 ^ 1024"
  by (rule binary64_exact [of 1024 _ "2 ^ 52"]) simp_all

lemma binary64_zero: "binary64 0 = 0"
  by (simp add: binary64_def)

lemma round_float_exact:
  assumes "binary64 x = x" "\<bar>x\<bar> \<le> 2 ^ 1023"
  shows "round_float x = Finite x"
  using round_float_Finite [OF assms(2)] assms(1) by simp

section \<open>Conversion there and back\<close>

text \<open>
  Each pair of conversions on one axis, for two finite coordinates of magnitude at most
  \<open>M \<le> big\<close>: every intermediate result is finite, and the coordinates come back
  within \<open>M / 2 ^ 49 + 32 * eta\<close>.
\<close>

lemma axis_xywh_xyxy:
  assumes "\<bar>p\<bar> \<le> M" "\<bar>q\<bar> \<le> M" "M \<le> big"
  obtains q' where "fsub (fadd (Finite p) (Finite q)) (Finite p) = Finite q'"
    and "\<bar>q' - q\<bar> \<le> M / 562949953421312 + 32 * eta"
proof -
  note B = big_ge_1 eta_bounds
  have 1: "M + M \<le> 8 * big" using assms B by argo
  from op_add [OF assms(1,2) 1] obtain s where
    s: "fadd (Finite p) (Finite q) = Finite s"
      "\<bar>s - (p + q)\<bar> \<le> (M + M) / 9007199254740992 + eta" by blast
  have sb: "\<bar>s\<bar> \<le> 3 * M + eta" using s(2) assms by argo
  have 2: "(3 * M + eta) + M \<le> 8 * big" using assms B by argo
  from op_sub [OF sb assms(1) 2] obtain q' where
    q': "fsub (Finite s) (Finite p) = Finite q'"
      "\<bar>q' - (s - p)\<bar> \<le> ((3 * M + eta) + M) / 9007199254740992 + eta" by blast
  have "\<bar>q' - q\<bar> \<le> M / 562949953421312 + 32 * eta"
    using q'(2) s(2) assms B by argo
  with s(1) q'(1) that show thesis by simp
qed

lemma axis_xyxy_xywh:
  assumes "\<bar>p\<bar> \<le> M" "\<bar>q\<bar> \<le> M" "M \<le> big"
  obtains q' where "fadd (Finite p) (fsub (Finite q) (Finite p)) = Finite q'"
    and "\<bar>q' - q\<bar> \<le> M / 562949953421312 + 32 * eta"
proof -
  note B = big_ge_1 eta_bounds
  have 1: "M + M \<le> 8 * big" using assms B by argo
  from op_sub [OF assms(2,1) 1] obtain s where
    s: "fsub (Finite q) (Finite p) = Finite s"
      "\<bar>s - (q - p)\<bar> \<le> (M + M) / 9007199254740992 + eta" by blast
  have sb: "\<bar>s\<bar> \<le> 3 * M + eta" using s(2) assms by argo
  have 2: "M + (3 * M + eta) \<le> 8 * big" using assms B by argo
  from op_add [OF assms(1) sb 2] obtain q' where
    q': "fadd (Finite p) (Finite s) = Finite q'"
      "\<bar>q' - (p + s)\<bar> \<le> (M + (3 * M + eta)) / 9007199254740992 + eta" by blast
  have "\<bar>q' - q\<bar> \<le> M / 562949953421312 + 32 * eta"
    using q'(2) s(2) assms B by argo
  with s(1) q'(1) that show thesis by simp
qed

lemma axis_cxcywh_xywh:
  assumes "\<bar>p\<bar> \<le> M" "\<bar>q\<bar> \<le> M" "M \<le> big"
  obtains p' where "fadd (fsub (Finite p) (half (Finite q))) (half (Finite q)) = Finite p'"
    and "\<bar>p' - p\<bar> \<le> M / 562949953421312 + 32 * eta"
proof -
  note B = big_ge_1 eta_bounds
  have 0: "M \<le> 8 * big" using assms B by argo
  from op_half [OF assms(2) 0] obtain h where
    h: "half (Finite q) = Finite h" "\<bar>h - q / 2\<bar> \<le> M / 9007199254740992 + eta" by blast
  have hb: "\<bar>h\<bar> \<le> M + eta" using h(2) assms by argo
  have 1: "M + (M + eta) \<le> 8 * big" using assms B by argo
  from op_sub [OF assms(1) hb 1] obtain s where
    s: "fsub (Finite p) (Finite h) = Finite s"
      "\<bar>s - (p - h)\<bar> \<le> (M + (M + eta)) / 9007199254740992 + eta" by blast
  have sb: "\<bar>s\<bar> \<le> 3 * M + 3 * eta" using s(2) hb assms B by argo
  have 2: "(3 * M + 3 * eta) + (M + eta) \<le> 8 * big" using assms B by argo
  from op_add [OF sb hb 2] obtain p' where
    p': "fadd (Finite s) (Finite h) = Finite p'"
      "\<bar>p' - (s + h)\<bar> \<le> ((3 * M + 3 * eta) + (M + eta)) / 9007199254740992 + eta" by blast
  have "\<bar>p' - p\<bar> \<le> M / 562949953421312 + 32 * eta"
    using p'(2) s(2) assms B by argo
  with h(1) s(1) p'(1) that show thesis by simp
qed

lemma axis_xywh_cxcywh:
  assumes "\<bar>p\<bar> \<le> M" "\<bar>q\<bar> \<le> M" "M \<le> big"
  obtains p' where "fsub (fadd (Finite p) (half (Finite q))) (half (Finite q)) = Finite p'"
    and "\<bar>p' - p\<bar> \<le> M / 562949953421312 + 32 * eta"
proof -
  note B = big_ge_1 eta_bounds
  have 0: "M \<le> 8 * big" using assms B by argo
  from op_half [OF assms(2) 0] obtain h where
    h: "half (Finite q) = Finite h" "\<bar>h - q / 2\<bar> \<le> M / 9007199254740992 + eta" by blast
  have hb: "\<bar>h\<bar> \<le> M + eta" using h(2) assms by argo
  have 1: "M + (M + eta) \<le> 8 * big" using assms B by argo
  from op_add [OF assms(1) hb 1] obtain s where
    s: "fadd (Finite p) (Finite h) = Finite s"
      "\<bar>s - (p + h)\<bar> \<le> (M + (M + eta)) / 9007199254740992 + eta" by blast
  have sb: "\<bar>s\<bar> \<le> 3 * M + 3 * eta" using s(2) hb assms B by argo
  have 2: "(3 * M + 3 * eta) + (M + eta) \<le> 8 * big" using assms B by argo
  from op_sub [OF sb hb 2] obtain p' where
    p': "fsub (Finite s) (Finite h) = Finite p'"
      "\<bar>p' - (s - h)\<bar> \<le> ((3 * M + 3 * eta) + (M + eta)) / 9007199254740992 + eta" by blast
  have "\<bar>p' - p\<bar> \<le> M / 562949953421312 + 32 * eta"
    using p'(2) s(2) assms B by argo
  with h(1) s(1) p'(1) that show thesis by simp
qed

lemma axis_cxcywh_xyxy:
  assumes "\<bar>p\<bar> \<le> M" "\<bar>q\<bar> \<le> M" "M \<le> big"
  obtains p' q' where
    "half (fadd (fsub (Finite p) (half (Finite q))) (fadd (Finite p) (half (Finite q))))
       = Finite p'"
    and "fsub (fadd (Finite p) (half (Finite q))) (fsub (Finite p) (half (Finite q)))
       = Finite q'"
    and "\<bar>p' - p\<bar> \<le> M / 562949953421312 + 32 * eta"
    and "\<bar>q' - q\<bar> \<le> M / 562949953421312 + 32 * eta"
proof -
  note B = big_ge_4 eta_bounds
  have 0: "M \<le> 8 * big" using assms B by argo
  from op_half [OF assms(2) 0] obtain h where
    h: "half (Finite q) = Finite h" "\<bar>h - q / 2\<bar> \<le> M / 9007199254740992 + eta" by blast
  have hb: "\<bar>h\<bar> \<le> M + eta" using h(2) assms by argo
  have 1: "M + (M + eta) \<le> 8 * big" using assms B by argo
  from op_sub [OF assms(1) hb 1] obtain lo where
    lo: "fsub (Finite p) (Finite h) = Finite lo"
      "\<bar>lo - (p - h)\<bar> \<le> (M + (M + eta)) / 9007199254740992 + eta" by blast
  from op_add [OF assms(1) hb 1] obtain hi where
    hi: "fadd (Finite p) (Finite h) = Finite hi"
      "\<bar>hi - (p + h)\<bar> \<le> (M + (M + eta)) / 9007199254740992 + eta" by blast
  have lob: "\<bar>lo\<bar> \<le> 3 * M + 3 * eta" using lo(2) hb assms B by argo
  have hib: "\<bar>hi\<bar> \<le> 3 * M + 3 * eta" using hi(2) hb assms B by argo
  have 2: "(3 * M + 3 * eta) + (3 * M + 3 * eta) \<le> 8 * big" using assms B by argo
  from op_add [OF lob hib 2] obtain s where
    s: "fadd (Finite lo) (Finite hi) = Finite s"
      "\<bar>s - (lo + hi)\<bar> \<le> ((3 * M + 3 * eta) + (3 * M + 3 * eta)) / 9007199254740992 + eta"
    by blast
  have sb: "\<bar>s\<bar> \<le> 7 * M + 8 * eta" using s(2) lob hib assms B by argo
  have 3: "7 * M + 8 * eta \<le> 8 * big" using assms B by argo
  from op_half [OF sb 3] obtain p' where
    p': "half (Finite s) = Finite p'"
      "\<bar>p' - s / 2\<bar> \<le> (7 * M + 8 * eta) / 9007199254740992 + eta" by blast
  from op_sub [OF hib lob 2] obtain q' where
    q': "fsub (Finite hi) (Finite lo) = Finite q'"
      "\<bar>q' - (hi - lo)\<bar> \<le> ((3 * M + 3 * eta) + (3 * M + 3 * eta)) / 9007199254740992 + eta"
    by blast
  have M0: "0 \<le> M" using assms(1) by argo
  have a1: "\<bar>lo + hi - 2 * p\<bar> \<le> 5 * M / 9007199254740992 + 3 * eta"
    using lo(2) hi(2) M0 B by argo
  have a2: "\<bar>s - 2 * p\<bar> \<le> 12 * M / 9007199254740992 + 5 * eta"
    using a1 s(2) M0 B by argo
  have ep: "\<bar>p' - p\<bar> \<le> M / 562949953421312 + 32 * eta"
    using p'(2) a2 M0 B by argo
  have b1: "\<bar>hi - lo - 2 * h\<bar> \<le> 5 * M / 9007199254740992 + 3 * eta"
    using lo(2) hi(2) M0 B by argo
  have b2: "\<bar>hi - lo - q\<bar> \<le> 7 * M / 9007199254740992 + 5 * eta"
    using b1 h(2) M0 B by argo
  have eq: "\<bar>q' - q\<bar> \<le> M / 562949953421312 + 32 * eta"
    using q'(2) b2 M0 B by argo
  from h(1) lo(1) hi(1) s(1) p'(1) q'(1) ep eq that show thesis by simp
qed

lemma axis_xyxy_cxcywh:
  assumes "\<bar>p\<bar> \<le> M" "\<bar>q\<bar> \<le> M" "M \<le> big"
  obtains p' q' where
    "fsub (half (fadd (Finite p) (Finite q))) (half (fsub (Finite q) (Finite p))) = Finite p'"
    and "fadd (half (fadd (Finite p) (Finite q))) (half (fsub (Finite q) (Finite p))) = Finite q'"
    and "\<bar>p' - p\<bar> \<le> M / 562949953421312 + 32 * eta"
    and "\<bar>q' - q\<bar> \<le> M / 562949953421312 + 32 * eta"
proof -
  note B = big_ge_4 eta_bounds
  have 1: "M + M \<le> 8 * big" using assms B by argo
  from op_add [OF assms(1,2) 1] obtain s where
    s: "fadd (Finite p) (Finite q) = Finite s"
      "\<bar>s - (p + q)\<bar> \<le> (M + M) / 9007199254740992 + eta" by blast
  from op_sub [OF assms(2,1) 1] obtain w where
    w: "fsub (Finite q) (Finite p) = Finite w"
      "\<bar>w - (q - p)\<bar> \<le> (M + M) / 9007199254740992 + eta" by blast
  have sb: "\<bar>s\<bar> \<le> 3 * M + eta" using s(2) assms by argo
  have wb: "\<bar>w\<bar> \<le> 3 * M + eta" using w(2) assms by argo
  have 2: "3 * M + eta \<le> 8 * big" using assms B by argo
  from op_half [OF sb 2] obtain c where
    c: "half (Finite s) = Finite c"
      "\<bar>c - s / 2\<bar> \<le> (3 * M + eta) / 9007199254740992 + eta" by blast
  from op_half [OF wb 2] obtain h where
    h: "half (Finite w) = Finite h"
      "\<bar>h - w / 2\<bar> \<le> (3 * M + eta) / 9007199254740992 + eta" by blast
  have cb: "\<bar>c\<bar> \<le> 2 * M + 2 * eta" using c(2) s(2) assms B by argo
  have hb: "\<bar>h\<bar> \<le> 2 * M + 2 * eta" using h(2) w(2) assms B by argo
  have 3: "(2 * M + 2 * eta) + (2 * M + 2 * eta) \<le> 8 * big" using assms B by argo
  from op_sub [OF cb hb 3] obtain p' where
    p': "fsub (Finite c) (Finite h) = Finite p'"
      "\<bar>p' - (c - h)\<bar> \<le> ((2 * M + 2 * eta) + (2 * M + 2 * eta)) / 9007199254740992 + eta"
    by blast
  from op_add [OF cb hb 3] obtain q' where
    q': "fadd (Finite c) (Finite h) = Finite q'"
      "\<bar>q' - (c + h)\<bar> \<le> ((2 * M + 2 * eta) + (2 * M + 2 * eta)) / 9007199254740992 + eta"
    by blast
  have M0: "0 \<le> M" using assms(1) by argo
  have a1: "\<bar>c - (p + q) / 2\<bar> \<le> 5 * M / 9007199254740992 + 2 * eta"
    using c(2) s(2) M0 B by argo
  have a2: "\<bar>h - (q - p) / 2\<bar> \<le> 5 * M / 9007199254740992 + 2 * eta"
    using h(2) w(2) M0 B by argo
  have a3: "\<bar>(c - h) - p\<bar> \<le> 10 * M / 9007199254740992 + 4 * eta"
    using a1 a2 by argo
  have a4: "\<bar>(c + h) - q\<bar> \<le> 10 * M / 9007199254740992 + 4 * eta"
    using a1 a2 by argo
  have ep: "\<bar>p' - p\<bar> \<le> M / 562949953421312 + 32 * eta"
    using p'(2) a3 M0 B by argo
  have eq: "\<bar>q' - q\<bar> \<le> M / 562949953421312 + 32 * eta"
    using q'(2) a4 M0 B by argo
  from s(1) w(1) c(1) h(1) p'(1) q'(1) ep eq that show thesis by simp
qed

lemma tol_eq:
  "M / 562949953421312 + 32 * eta = M / 2 ^ 49 + 2 powi (- 1070)"
proof -
  have "(2::real) powi (5 + (- 1075)) = 2 powi 5 * 2 powi (- 1075)"
    by (rule power_int_add) simp
  moreover have "5 + (- 1075) = (- 1070 :: int)" by simp
  ultimately have "(2::real) powi (- 1070) = 32 * eta"
    by (simp add: eta_def)
  then show ?thesis by simp
qed

lemma tol_nonneg:
  assumes "\<bar>c\<bar> \<le> M"
  shows "\<bar>c - c\<bar> \<le> M / 562949953421312 + 32 * eta"
  using assms eta_bounds by argo

lemma format_to_xyxy_float: "format (to_xyxy_float b) = XYXY"
  by (cases b) (simp add: to_xyxy_float_def split: BoundingBoxFormat.split prod.split)

lemma format_to_xywh_float: "format (to_xywh_float b) = XYWH"
  by (cases b) (simp add: to_xywh_float_def split: BoundingBoxFormat.split prod.split)

lemma format_to_cxcywh_float: "format (to_cxcywh_float b) = CXCYWH"
  by (cases b) (simp add: to_cxcywh_float_def split: BoundingBoxFormat.split prod.split)

lemma format_convert: "format (convert b f) = f"
  by (cases f)
    (simp_all add: convert_def format_to_xyxy_float format_to_xywh_float
      format_to_cxcywh_float)

lemma round_trip_boxes:
  assumes m: "\<bar>c0\<bar> \<le> M" "\<bar>c1\<bar> \<le> M" "\<bar>c2\<bar> \<le> M" "\<bar>c3\<bar> \<le> M" and M: "M \<le> big"
  shows "\<exists>d0 d1 d2 d3.
      convert (convert \<lparr>coordinates = (Finite c0, Finite c1, Finite c2, Finite c3),
                         format = g, normalized = n\<rparr> f) g
        = \<lparr>coordinates = (Finite d0, Finite d1, Finite d2, Finite d3),
           format = g, normalized = n\<rparr>
      \<and> \<bar>d0 - c0\<bar> \<le> M / 562949953421312 + 32 * eta
      \<and> \<bar>d1 - c1\<bar> \<le> M / 562949953421312 + 32 * eta
      \<and> \<bar>d2 - c2\<bar> \<le> M / 562949953421312 + 32 * eta
      \<and> \<bar>d3 - c3\<bar> \<le> M / 562949953421312 + 32 * eta"
proof -
  note z = tol_nonneg [OF m(1)] tol_nonneg [OF m(2)] tol_nonneg [OF m(3)] tol_nonneg [OF m(4)]
  note defs = convert_def to_xyxy_float_def to_xywh_float_def to_cxcywh_float_def
  show ?thesis
  proof (cases g; cases f)
    assume "g = XYXY" "f = XYXY"
    with z show ?thesis by (simp add: defs)
  next
    assume "g = XYWH" "f = XYWH"
    with z show ?thesis by (simp add: defs)
  next
    assume "g = CXCYWH" "f = CXCYWH"
    with z show ?thesis by (simp add: defs)
  next
    assume gf: "g = XYWH" "f = XYXY"
    from axis_xywh_xyxy [OF m(1) m(3) M] obtain d2 where
      x: "fsub (fadd (Finite c0) (Finite c2)) (Finite c0) = Finite d2"
        "\<bar>d2 - c2\<bar> \<le> M / 562949953421312 + 32 * eta" by blast
    from axis_xywh_xyxy [OF m(2) m(4) M] obtain d3 where
      y: "fsub (fadd (Finite c1) (Finite c3)) (Finite c1) = Finite d3"
        "\<bar>d3 - c3\<bar> \<le> M / 562949953421312 + 32 * eta" by blast
    from gf x y z show ?thesis by (simp add: defs)
  next
    assume gf: "g = XYXY" "f = XYWH"
    from axis_xyxy_xywh [OF m(1) m(3) M] obtain d2 where
      x: "fadd (Finite c0) (fsub (Finite c2) (Finite c0)) = Finite d2"
        "\<bar>d2 - c2\<bar> \<le> M / 562949953421312 + 32 * eta" by blast
    from axis_xyxy_xywh [OF m(2) m(4) M] obtain d3 where
      y: "fadd (Finite c1) (fsub (Finite c3) (Finite c1)) = Finite d3"
        "\<bar>d3 - c3\<bar> \<le> M / 562949953421312 + 32 * eta" by blast
    from gf x y z show ?thesis by (simp add: defs)
  next
    assume gf: "g = CXCYWH" "f = XYWH"
    from axis_cxcywh_xywh [OF m(1) m(3) M] obtain d0 where
      x: "fadd (fsub (Finite c0) (half (Finite c2))) (half (Finite c2)) = Finite d0"
        "\<bar>d0 - c0\<bar> \<le> M / 562949953421312 + 32 * eta" by blast
    from axis_cxcywh_xywh [OF m(2) m(4) M] obtain d1 where
      y: "fadd (fsub (Finite c1) (half (Finite c3))) (half (Finite c3)) = Finite d1"
        "\<bar>d1 - c1\<bar> \<le> M / 562949953421312 + 32 * eta" by blast
    from gf x y z show ?thesis by (simp add: defs)
  next
    assume gf: "g = XYWH" "f = CXCYWH"
    from axis_xywh_cxcywh [OF m(1) m(3) M] obtain d0 where
      x: "fsub (fadd (Finite c0) (half (Finite c2))) (half (Finite c2)) = Finite d0"
        "\<bar>d0 - c0\<bar> \<le> M / 562949953421312 + 32 * eta" by blast
    from axis_xywh_cxcywh [OF m(2) m(4) M] obtain d1 where
      y: "fsub (fadd (Finite c1) (half (Finite c3))) (half (Finite c3)) = Finite d1"
        "\<bar>d1 - c1\<bar> \<le> M / 562949953421312 + 32 * eta" by blast
    from gf x y z show ?thesis by (simp add: defs)
  next
    assume gf: "g = CXCYWH" "f = XYXY"
    from axis_cxcywh_xyxy [OF m(1) m(3) M] obtain d0 d2 where
      x: "half (fadd (fsub (Finite c0) (half (Finite c2))) (fadd (Finite c0) (half (Finite c2))))
            = Finite d0"
        "fsub (fadd (Finite c0) (half (Finite c2))) (fsub (Finite c0) (half (Finite c2)))
            = Finite d2"
        "\<bar>d0 - c0\<bar> \<le> M / 562949953421312 + 32 * eta"
        "\<bar>d2 - c2\<bar> \<le> M / 562949953421312 + 32 * eta" by blast
    from axis_cxcywh_xyxy [OF m(2) m(4) M] obtain d1 d3 where
      y: "half (fadd (fsub (Finite c1) (half (Finite c3))) (fadd (Finite c1) (half (Finite c3))))
            = Finite d1"
        "fsub (fadd (Finite c1) (half (Finite c3))) (fsub (Finite c1) (half (Finite c3)))
            = Finite d3"
        "\<bar>d1 - c1\<bar> \<le> M / 562949953421312 + 32 * eta"
        "\<bar>d3 - c3\<bar> \<le> M / 562949953421312 + 32 * eta" by blast
    from gf x y show ?thesis by (simp add: defs)
  next
    assume gf: "g = XYXY" "f = CXCYWH"
    from axis_xyxy_cxcywh [OF m(1) m(3) M] obtain d0 d2 where
      x: "fsub (half (fadd (Finite c0) (Finite c2))) (half (fsub (Finite c2) (Finite c0)))
            = Finite d0"
        "fadd (half (fadd (Finite c0) (Finite c2))) (half (fsub (Finite c2) (Finite c0)))
            = Finite d2"
        "\<bar>d0 - c0\<bar> \<le> M / 562949953421312 + 32 * eta"
        "\<bar>d2 - c2\<bar> \<le> M / 562949953421312 + 32 * eta" by blast
    from axis_xyxy_cxcywh [OF m(2) m(4) M] obtain d1 d3 where
      y: "fsub (half (fadd (Finite c1) (Finite c3))) (half (fsub (Finite c3) (Finite c1)))
            = Finite d1"
        "fadd (half (fadd (Finite c1) (Finite c3))) (half (fsub (Finite c3) (Finite c1)))
            = Finite d3"
        "\<bar>d1 - c1\<bar> \<le> M / 562949953421312 + 32 * eta"
        "\<bar>d3 - c3\<bar> \<le> M / 562949953421312 + 32 * eta" by blast
    from gf x y show ?thesis by (simp add: defs)
  qed
qed

text \<open>
  C2, as amended. For a box whose coordinates are finite floats of magnitude at most
  \<open>M\<close>, with \<open>M\<close> at most \<open>2 ^ 1020\<close>, and for every format \<open>f\<close>: converting to \<open>f\<close> and
  back to the box's own format gives a box with the same format and flag, whose
  coordinates are finite and each within \<open>M / 2 ^ 49 + 2 powi (- 1070)\<close> of the original
  one. \<open>convert\<close> dispatches to \<open>to_xyxy\<close>, \<open>to_xywh\<close> or \<open>to_cxcywh\<close> according to the
  three variants of the enumeration, and the result is in the requested format.
\<close>

theorem convert_round_trip:
  assumes c: "coordinates b = (Finite c0, Finite c1, Finite c2, Finite c3)"
    and m: "\<bar>c0\<bar> \<le> M" "\<bar>c1\<bar> \<le> M" "\<bar>c2\<bar> \<le> M" "\<bar>c3\<bar> \<le> M"
    and M: "M \<le> 2 ^ 1020"
  shows "(\<exists>d0 d1 d2 d3.
      convert (convert b f) (format b)
        = \<lparr>coordinates = (Finite d0, Finite d1, Finite d2, Finite d3),
           format = format b, normalized = normalized b\<rparr>
      \<and> \<bar>d0 - c0\<bar> \<le> M / 2 ^ 49 + 2 powi (- 1070)
      \<and> \<bar>d1 - c1\<bar> \<le> M / 2 ^ 49 + 2 powi (- 1070)
      \<and> \<bar>d2 - c2\<bar> \<le> M / 2 ^ 49 + 2 powi (- 1070)
      \<and> \<bar>d3 - c3\<bar> \<le> M / 2 ^ 49 + 2 powi (- 1070))
    \<and> convert b XYXY = to_xyxy_float b
    \<and> convert b XYWH = to_xywh_float b
    \<and> convert b CXCYWH = to_cxcywh_float b
    \<and> format (convert b f) = f"
proof -
  have b: "b = \<lparr>coordinates = (Finite c0, Finite c1, Finite c2, Finite c3),
      format = format b, normalized = normalized b\<rparr>"
    using c by (cases b) simp
  from M have M': "M \<le> big" by (simp only: big_def)
  have rt: "\<exists>d0 d1 d2 d3.
      convert (convert b f) (format b)
        = \<lparr>coordinates = (Finite d0, Finite d1, Finite d2, Finite d3),
           format = format b, normalized = normalized b\<rparr>
      \<and> \<bar>d0 - c0\<bar> \<le> M / 2 ^ 49 + 2 powi (- 1070)
      \<and> \<bar>d1 - c1\<bar> \<le> M / 2 ^ 49 + 2 powi (- 1070)
      \<and> \<bar>d2 - c2\<bar> \<le> M / 2 ^ 49 + 2 powi (- 1070)
      \<and> \<bar>d3 - c3\<bar> \<le> M / 2 ^ 49 + 2 powi (- 1070)"
    using round_trip_boxes [OF m M', of "format b" "normalized b" f]
    unfolding tol_eq b [symmetric] .
  have d: "convert b XYXY = to_xyxy_float b" "convert b XYWH = to_xywh_float b"
    "convert b CXCYWH = to_cxcywh_float b"
    by (simp_all add: convert_def)
  from rt d format_convert [of b f] show ?thesis by (intro conjI)
qed

theorem convert_round_trip_witness:
  "coordinates \<lparr>coordinates = (Finite 10, Finite 20, Finite 30, Finite 40), format = XYWH,
        normalized = False\<rparr> = (Finite 10, Finite 20, Finite 30, Finite 40)
   \<and> \<bar>10 :: real\<bar> \<le> 40 \<and> \<bar>20 :: real\<bar> \<le> 40 \<and> \<bar>30 :: real\<bar> \<le> 40 \<and> \<bar>40 :: real\<bar> \<le> 40
   \<and> (40 :: real) \<le> 2 ^ 1020
   \<and> (\<exists>d0 d1 d2 d3.
        convert (convert \<lparr>coordinates = (Finite 10, Finite 20, Finite 30, Finite 40),
            format = XYWH, normalized = False\<rparr> CXCYWH) XYWH
          = \<lparr>coordinates = (Finite d0, Finite d1, Finite d2, Finite d3),
             format = XYWH, normalized = False\<rparr>
        \<and> \<bar>d0 - 10\<bar> \<le> 40 / 2 ^ 49 + 2 powi (- 1070)
        \<and> \<bar>d1 - 20\<bar> \<le> 40 / 2 ^ 49 + 2 powi (- 1070)
        \<and> \<bar>d2 - 30\<bar> \<le> 40 / 2 ^ 49 + 2 powi (- 1070)
        \<and> \<bar>d3 - 40\<bar> \<le> 40 / 2 ^ 49 + 2 powi (- 1070))"
proof -
  have c: "coordinates \<lparr>coordinates = (Finite 10, Finite 20, Finite 30, Finite 40),
      format = XYWH, normalized = False\<rparr> = (Finite 10, Finite 20, Finite 30, Finite 40)"
    by simp
  have m: "\<bar>10 :: real\<bar> \<le> 40" "\<bar>20 :: real\<bar> \<le> 40" "\<bar>30 :: real\<bar> \<le> 40" "\<bar>40 :: real\<bar> \<le> 40"
    by simp_all
  have M: "(40 :: real) \<le> 2 ^ 1020" by simp
  from convert_round_trip [OF c m M, of CXCYWH, THEN conjunct1]
  have "\<exists>d0 d1 d2 d3.
        convert (convert \<lparr>coordinates = (Finite 10, Finite 20, Finite 30, Finite 40),
            format = XYWH, normalized = False\<rparr> CXCYWH) XYWH
          = \<lparr>coordinates = (Finite d0, Finite d1, Finite d2, Finite d3),
             format = XYWH, normalized = False\<rparr>
        \<and> \<bar>d0 - 10\<bar> \<le> 40 / 2 ^ 49 + 2 powi (- 1070)
        \<and> \<bar>d1 - 20\<bar> \<le> 40 / 2 ^ 49 + 2 powi (- 1070)
        \<and> \<bar>d2 - 30\<bar> \<le> 40 / 2 ^ 49 + 2 powi (- 1070)
        \<and> \<bar>d3 - 40\<bar> \<le> 40 / 2 ^ 49 + 2 powi (- 1070)"
    by (simp only: BoundingBox.select_convs)
  with c m M show ?thesis by (intro conjI)
qed

text \<open>
  C2, as stated, fails: the tolerance cannot be taken relative to the coordinate
  itself, nor for every box. The XYWH box \<open>(1e16, 0, 1, 1)\<close> comes back from XYXY with
  the width \<open>0\<close>, since \<open>1e16 + 1\<close> rounds to \<open>1e16\<close>; and the XYWH box
  \<open>(2 ^ 1023, 0, 2 ^ 1023, 1)\<close> comes back with an infinite width.
\<close>

theorem convert_round_trip_counterexample:
  "convert (convert \<lparr>coordinates = (Finite 10000000000000000, Finite 0, Finite 1, Finite 1),
       format = XYWH, normalized = False\<rparr> XYXY) XYWH
     = \<lparr>coordinates = (Finite 10000000000000000, Finite 0, Finite 0, Finite 1),
        format = XYWH, normalized = False\<rparr>
   \<and> Finite 0 \<noteq> Finite 1
   \<and> convert (convert \<lparr>coordinates = (Finite (2 ^ 1023), Finite 0, Finite (2 ^ 1023), Finite 1),
       format = XYWH, normalized = False\<rparr> XYXY) XYWH
     = \<lparr>coordinates = (Finite (2 ^ 1023), Finite 0, PosInf, Finite 1),
        format = XYWH, normalized = False\<rparr>"
proof -
  have a: "round_float (10000000000000000 + 1) = Finite 10000000000000000"
    using round_float_Finite [of "10000000000000001"] by (simp add: b64_tie)
  have b: "round_float 1 = Finite 1" "round_float 0 = Finite 0"
    using round_float_Finite [of 1] round_float_Finite [of 0]
    by (simp_all add: binary64_values binary64_zero)
  have "(2::real) ^ 1023 + 2 ^ 1023 = 2 ^ 1024"
  proof -
    have "(1024::nat) = Suc 1023" by simp
    then have "(2::real) ^ 1024 = 2 * 2 ^ 1023" by (simp only: power_Suc)
    then show ?thesis by simp
  qed
  then have c: "round_float (2 ^ 1023 + 2 ^ 1023) = PosInf"
    unfolding round_float_def Let_def by (simp only: b64_2_1024 order_refl if_True)
  have 1: "convert (convert \<lparr>coordinates = (Finite 10000000000000000, Finite 0, Finite 1, Finite 1),
       format = XYWH, normalized = False\<rparr> XYXY) XYWH
     = \<lparr>coordinates = (Finite 10000000000000000, Finite 0, Finite 0, Finite 1),
        format = XYWH, normalized = False\<rparr>"
    using a b by (simp add: convert_def to_xyxy_float_def to_xywh_float_def)
  have 2: "convert (convert \<lparr>coordinates = (Finite (2 ^ 1023), Finite 0, Finite (2 ^ 1023), Finite 1),
       format = XYWH, normalized = False\<rparr> XYXY) XYWH
     = \<lparr>coordinates = (Finite (2 ^ 1023), Finite 0, PosInf, Finite 1),
        format = XYWH, normalized = False\<rparr>"
    unfolding convert_def to_xyxy_float_def to_xywh_float_def
    using b c by (simp del: power_numeral)
  from 1 2 show ?thesis by simp
qed

section \<open>Normalization\<close>

lemma float_of_int_ok:
  assumes "\<bar>real_of_int n\<bar> \<le> 2 ^ 1023"
  shows "float_of_int n = Inr (binary64 (real_of_int n))"
  using round_float_Finite [OF assms] by (simp add: float_of_int_def)

lemma float_of_int_cases:
  "float_of_int n = Inr (binary64 (real_of_int n)) \<or> float_of_int n = Inl OverflowError"
  by (simp add: float_of_int_def round_float_def Let_def)

lemma float_of_int_overflow:
  assumes "float_of_int n = Inl e"
  shows "e = OverflowError \<and> 2 ^ 1023 < \<bar>real_of_int n\<bar>"
proof -
  have "\<not> \<bar>real_of_int n\<bar> \<le> 2 ^ 1023"
    using assms float_of_int_ok [of n] by auto
  moreover have "e = OverflowError"
    using assms float_of_int_cases [of n] by auto
  ultimately show ?thesis by simp
qed

lemma binary64_int_nonzero:
  assumes "n \<noteq> 0"
  shows "binary64 (real_of_int n) \<noteq> 0"
proof -
  have 1: "1 \<le> \<bar>real_of_int n\<bar>" using assms by (simp flip: of_int_abs)
  have "\<bar>binary64 (real_of_int n) - real_of_int n\<bar> \<le> \<bar>real_of_int n\<bar> / 9007199254740992 + eta"
    by (rule binary64_err) simp
  with 1 eta_bounds show ?thesis by argo
qed

lemma truediv_eq:
  "truediv x n =
     (case float_of_int n of
        Inl e \<Rightarrow> Inl e
      | Inr d \<Rightarrow> if n = 0 then Inl ZeroDivisionError else Inr (fdiv x d))"
proof (cases "float_of_int n")
  case (Inl e)
  then show ?thesis by (simp add: truediv_def)
next
  case (Inr d)
  with float_of_int_cases [of n] have d: "d = binary64 (real_of_int n)" by simp
  have "d = 0 \<longleftrightarrow> n = 0"
    using binary64_int_nonzero [of n] binary64_zero by (auto simp add: d)
  with Inr show ?thesis by (simp add: truediv_def)
qed

lemma binary64_pos_int:
  assumes "1 \<le> n"
  shows "1 / 2 \<le> binary64 (real_of_int n)" "binary64 (real_of_int n) \<le> 2 * real_of_int n"
proof -
  have 1: "1 \<le> real_of_int n" using assms by simp
  have e: "\<bar>binary64 (real_of_int n) - real_of_int n\<bar> \<le> real_of_int n / 9007199254740992 + eta"
    by (rule binary64_err) (use 1 in simp)
  show "1 / 2 \<le> binary64 (real_of_int n)" using e 1 eta_bounds by argo
  show "binary64 (real_of_int n) \<le> 2 * real_of_int n" using e 1 eta_bounds by argo
qed

lemma eta_times:
  assumes "0 \<le> x" "x \<le> 2 ^ 1023"
  shows "eta * x \<le> 1"
proof -
  have "eta * x \<le> eta * 2 ^ 1023"
    using assms eta_bounds(1) by (intro mult_left_mono)
  also have "\<dots> = 2 powi (- 1075) * 2 powi 1023" by (simp add: eta_def)
  also have "\<dots> = 2 powi (- 1075 + 1023)" by (rule power_int_add [symmetric]) simp
  also have "\<dots> \<le> 2 powi 0" by (rule power_int_increasing) simp_all
  finally show ?thesis by simp
qed

lemma div_mul_round_trip:
  assumes c: "\<bar>c\<bar> \<le> big" and n: "1 \<le> n" "real_of_int n \<le> 2 ^ 1023"
  obtains W q c' where "float_of_int n = Inr W" "W \<noteq> 0"
    and "fdiv (Finite c) W = Finite q" "fmul (Finite q) W = Finite c'"
    and "\<bar>c' - c\<bar> \<le> \<bar>c\<bar> / 2 ^ 51 + real_of_int n * 2 powi (- 1073)"
proof -
  note B = big_ge_4 eta_bounds
  define W where "W = binary64 (real_of_int n)"
  have n1: "1 \<le> real_of_int n" using n(1) by simp
  have Wf: "float_of_int n = Inr W"
    unfolding W_def by (rule float_of_int_ok) (use n n1 in simp)
  have W: "1 / 2 \<le> W" "W \<le> 2 * real_of_int n"
    unfolding W_def using binary64_pos_int [OF n(1)] by simp_all
  have Wpos: "0 < W" using W(1) by simp
  define z where "z = eta * W"
  define zn where "zn = eta * real_of_int n"
  have z: "0 \<le> z" "z \<le> 2 * zn"
    using W Wpos B mult_left_mono [of W "2 * real_of_int n" eta]
    by (simp_all add: z_def zn_def)
  have zn: "eta \<le> zn" "zn \<le> 1"
    using n1 B mult_left_mono [of 1 "real_of_int n" eta] eta_times [of "real_of_int n"] n(2)
    by (simp_all add: zn_def)
  have quot: "\<bar>c / W\<bar> \<le> 2 * \<bar>c\<bar>"
  proof -
    have "\<bar>c / W\<bar> = \<bar>c\<bar> / W" using Wpos by simp
    also have "\<dots> \<le> \<bar>c\<bar> / (1 / 2)"
      using W(1) by (intro divide_left_mono) simp_all
    finally show ?thesis by simp
  qed
  have qb: "\<bar>c / W\<bar> \<le> 8 * big" using quot c B by argo
  define q where "q = binary64 (c / W)"
  have qf: "fdiv (Finite c) W = Finite q"
    using round_float_ok [OF qb] by (simp add: q_def)
  have "\<bar>q - c / W\<bar> \<le> \<bar>c / W\<bar> / 2 ^ 53 + eta"
    unfolding q_def eta_def by (rule binary64_error)
  then have "\<bar>q - c / W\<bar> * W \<le> (\<bar>c / W\<bar> / 2 ^ 53 + eta) * W"
    using Wpos by (intro mult_right_mono) simp_all
  moreover have "\<bar>q - c / W\<bar> * W = \<bar>q * W - c\<bar>"
  proof -
    have "\<bar>q - c / W\<bar> * W = \<bar>(q - c / W) * W\<bar>" using Wpos by (simp add: abs_mult)
    also have "(q - c / W) * W = q * W - c" using Wpos by (simp add: field_simps)
    finally show ?thesis .
  qed
  moreover have "(\<bar>c / W\<bar> / 2 ^ 53 + eta) * W = \<bar>c\<bar> / 2 ^ 53 + z"
    using Wpos by (simp add: z_def field_simps)
  ultimately have e1: "\<bar>q * W - c\<bar> \<le> \<bar>c\<bar> / 9007199254740992 + z" by simp
  have pb: "\<bar>q * W\<bar> \<le> 2 * \<bar>c\<bar> + z" using e1 z(1) by argo
  have pb': "\<bar>q * W\<bar> \<le> 8 * big" using pb c z zn B by argo
  define c' where "c' = binary64 (q * W)"
  have cf: "fmul (Finite q) W = Finite c'"
    using round_float_ok [OF pb'] by (simp add: c'_def)
  have e2: "\<bar>c' - q * W\<bar> \<le> (2 * \<bar>c\<bar> + z) / 9007199254740992 + eta"
    unfolding c'_def using pb by (rule binary64_err)
  have "\<bar>c' - c\<bar> \<le> \<bar>c\<bar> / 2251799813685248 + 4 * zn"
    using e1 e2 z zn by argo
  moreover have "4 * zn = real_of_int n * 2 powi (- 1073)"
  proof -
    have "(2::real) powi (2 + (- 1075)) = 2 powi 2 * 2 powi (- 1075)"
      by (rule power_int_add) simp
    moreover have "2 + (- 1075) = (- 1073 :: int)" by simp
    ultimately have "(2::real) powi (- 1073) = 4 * eta" by (simp add: eta_def)
    then show ?thesis by (simp add: zn_def)
  qed
  ultimately have "\<bar>c' - c\<bar> \<le> \<bar>c\<bar> / 2 ^ 51 + real_of_int n * 2 powi (- 1073)"
    by simp
  with Wf Wpos qf cf that show thesis by simp
qed

lemma normalize_box_eq:
  "normalize_box b (w, h) =
     (if normalized b then Inr b
      else
        (case float_of_int w of
           Inl e \<Rightarrow> Inl e
         | Inr W \<Rightarrow>
             if w = 0 then Inl ZeroDivisionError
             else
               (case float_of_int h of
                  Inl e \<Rightarrow> Inl e
                | Inr H \<Rightarrow>
                    if h = 0 then Inl ZeroDivisionError
                    else Inr \<lparr>coordinates =
                           (case coordinates b of (c0, c1, c2, c3) \<Rightarrow>
                              (fdiv c0 W, fdiv c1 H, fdiv c2 W, fdiv c3 H)),
                         format = format b, normalized = True\<rparr>)))"
  by (simp add: normalize_box_def truediv_eq split: prod.split sum.split)

lemma int_bound:
  assumes "\<bar>n\<bar> \<le> (2 :: int) ^ 1023"
  shows "\<bar>real_of_int n\<bar> \<le> 2 ^ 1023"
proof -
  have "real_of_int \<bar>n\<bar> \<le> real_of_int (2 ^ 1023)"
    using assms by (simp only: of_int_le_iff)
  then show ?thesis by simp
qed

lemma int_overflow:
  assumes "2 ^ 1023 < \<bar>real_of_int n\<bar>"
  shows "(2 :: int) ^ 1023 < \<bar>n\<bar>"
proof -
  have "real_of_int (2 ^ 1023) < real_of_int \<bar>n\<bar>" using assms by simp
  then show ?thesis by (simp only: of_int_less_iff)
qed

lemma float_of_int_zero: "float_of_int 0 = Inr 0"
  using float_of_int_ok [of 0] by (simp add: binary64_zero)

lemma float_of_int_2_1024: "float_of_int (2 ^ 1024) = Inl OverflowError"
proof -
  have r: "round_float (2 ^ 1024) = PosInf"
    unfolding round_float_def Let_def b64_2_1024 by (simp only: order_refl if_True)
  have "real_of_int (2 ^ 1024) = 2 ^ 1024" by (simp only: of_int_power of_int_numeral)
  then show ?thesis unfolding float_of_int_def by (simp only: r float.case)
qed

lemma mul_int_ok:
  assumes "float_of_int n = Inr W"
  shows "mul_int x n = Inr (fmul x W)"
  using assms by (simp add: mul_int_def)

text \<open>
  C3, as amended. If the box is already normalized, \<open>normalize\<close> returns it unchanged,
  whatever the size. Otherwise, for a width and a height that are both different from
  zero and of magnitude at most \<open>2 ^ 1023\<close>, it returns a box whose first and third
  coordinates are divided by the width, whose second and fourth coordinates are
  divided by the height (the division of floats, by the dimension converted to
  \<open>float\<close>), whose flag is true, and whose format is the receiver's.
\<close>

theorem normalize_divides_by_size:
  "(normalized b \<longrightarrow> normalize_box b (w, h) = Inr b)
   \<and> (\<not> normalized b \<and> w \<noteq> 0 \<and> h \<noteq> 0 \<and> \<bar>w\<bar> \<le> 2 ^ 1023 \<and> \<bar>h\<bar> \<le> 2 ^ 1023 \<longrightarrow>
        normalize_box b (w, h) =
          Inr \<lparr>coordinates =
                 (case coordinates b of (c0, c1, c2, c3) \<Rightarrow>
                    (fdiv c0 (binary64 (real_of_int w)), fdiv c1 (binary64 (real_of_int h)),
                     fdiv c2 (binary64 (real_of_int w)), fdiv c3 (binary64 (real_of_int h)))),
               format = format b, normalized = True\<rparr>)"
proof -
  have "normalize_box b (w, h) =
          Inr \<lparr>coordinates =
                 (case coordinates b of (c0, c1, c2, c3) \<Rightarrow>
                    (fdiv c0 (binary64 (real_of_int w)), fdiv c1 (binary64 (real_of_int h)),
                     fdiv c2 (binary64 (real_of_int w)), fdiv c3 (binary64 (real_of_int h)))),
               format = format b, normalized = True\<rparr>"
    if "\<not> normalized b" "w \<noteq> 0" "h \<noteq> 0" "\<bar>w\<bar> \<le> 2 ^ 1023" "\<bar>h\<bar> \<le> 2 ^ 1023"
    using that float_of_int_ok [OF int_bound, of w] float_of_int_ok [OF int_bound, of h]
    by (simp add: normalize_box_eq)
  then show ?thesis by (simp add: normalize_box_def)
qed

theorem normalize_divides_by_size_witness:
  "\<not> normalized \<lparr>coordinates = (Finite 16, Finite 32, Finite 48, Finite 96), format = XYWH,
        normalized = False\<rparr>
   \<and> (64::int) \<noteq> 0 \<and> (128::int) \<noteq> 0 \<and> \<bar>64 :: int\<bar> \<le> 2 ^ 1023 \<and> \<bar>128 :: int\<bar> \<le> 2 ^ 1023
   \<and> normalize_box \<lparr>coordinates = (Finite 16, Finite 32, Finite 48, Finite 96), format = XYWH,
        normalized = False\<rparr> (64, 128)
       = Inr \<lparr>coordinates = (Finite (1 / 4), Finite (1 / 4), Finite (3 / 4), Finite (3 / 4)),
              format = XYWH, normalized = True\<rparr>
   \<and> normalized \<lparr>coordinates = (Finite 1, Finite 2, Finite 3, Finite 4), format = XYXY,
        normalized = True\<rparr>
   \<and> normalize_box \<lparr>coordinates = (Finite 1, Finite 2, Finite 3, Finite 4), format = XYXY,
        normalized = True\<rparr> (0, 0)
       = Inr \<lparr>coordinates = (Finite 1, Finite 2, Finite 3, Finite 4), format = XYXY,
              normalized = True\<rparr>"
proof -
  have q: "round_float (1 / 4) = Finite (1 / 4)" "round_float (3 / 4) = Finite (3 / 4)"
    by (rule round_float_exact, simp_all add: binary64_values)+
  show ?thesis
    using normalize_divides_by_size
      [of "\<lparr>coordinates = (Finite 16, Finite 32, Finite 48, Finite 96), format = XYWH,
          normalized = False\<rparr>" 64 128]
      normalize_divides_by_size
      [of "\<lparr>coordinates = (Finite 1, Finite 2, Finite 3, Finite 4), format = XYXY,
          normalized = True\<rparr>" 0 0]
    by (simp add: binary64_values q)
qed

text \<open>
  C3, as stated, fails: for a box that is not normalized, \<open>normalize\<close> returns no box
  at the size \<open>(0, 5)\<close>, where it raises \<open>ZeroDivisionError\<close>, nor at the size
  \<open>(2 ^ 1024, 1)\<close>, where the width does not convert to \<open>float\<close> and it raises
  \<open>OverflowError\<close>.
\<close>

theorem normalize_zero_width_counterexample:
  "normalize_box \<lparr>coordinates = (Finite 1, Finite 2, Finite 3, Finite 4), format = XYXY,
      normalized = False\<rparr> (0, 5) = Inl ZeroDivisionError
   \<and> normalize_box \<lparr>coordinates = (Finite 1, Finite 2, Finite 3, Finite 4), format = XYXY,
      normalized = False\<rparr> (2 ^ 1024, 1) = Inl OverflowError"
  unfolding normalize_box_eq float_of_int_2_1024 float_of_int_zero by simp

text \<open>
  C10, as amended. \<open>normalize\<close> divides without a guard. On a box that is not
  normalized it raises \<open>ZeroDivisionError\<close> when the width is zero, and when the height
  is zero and the width is of magnitude at most \<open>2 ^ 1023\<close>; a width that does not
  convert to \<open>float\<close> raises \<open>OverflowError\<close> first. \<open>ZeroDivisionError\<close> is raised only
  for a zero dimension, \<open>OverflowError\<close> only for a dimension beyond \<open>2 ^ 1023\<close> in
  magnitude, and there is no other error; for a positive size with both dimensions at
  most \<open>2 ^ 1023\<close> a box is returned. So the inverse property of \<open>normalize\<close> and
  \<open>denormalize\<close> needs a precondition on the size that excludes zero.
\<close>

theorem normalize_raises_on_zero_size:
  "\<not> normalized b \<Longrightarrow>
     (w = 0 \<longrightarrow> normalize_box b (w, h) = Inl ZeroDivisionError)
     \<and> (h = 0 \<and> \<bar>w\<bar> \<le> 2 ^ 1023 \<longrightarrow> normalize_box b (w, h) = Inl ZeroDivisionError)
     \<and> (float_of_int w = Inl OverflowError \<longrightarrow> normalize_box b (w, h) = Inl OverflowError)
     \<and> (normalize_box b (w, h) = Inl ZeroDivisionError \<longrightarrow> w = 0 \<or> h = 0)
     \<and> (normalize_box b (w, h) = Inl OverflowError \<longrightarrow> 2 ^ 1023 < \<bar>w\<bar> \<or> 2 ^ 1023 < \<bar>h\<bar>)
     \<and> (\<forall>e. normalize_box b (w, h) = Inl e \<longrightarrow> e = ZeroDivisionError \<or> e = OverflowError)
     \<and> (0 < w \<and> w \<le> 2 ^ 1023 \<and> 0 < h \<and> h \<le> 2 ^ 1023 \<longrightarrow>
          (\<exists>b'. normalize_box b (w, h) = Inr b'))"
proof -
  assume n: "\<not> normalized b"
  have 1: "w = 0 \<longrightarrow> normalize_box b (w, h) = Inl ZeroDivisionError"
    using n by (simp add: normalize_box_eq float_of_int_zero)
  have 2: "h = 0 \<and> \<bar>w\<bar> \<le> 2 ^ 1023 \<longrightarrow> normalize_box b (w, h) = Inl ZeroDivisionError"
    using n float_of_int_ok [OF int_bound, of w]
    by (simp add: normalize_box_eq float_of_int_zero)
  have 3: "float_of_int w = Inl OverflowError \<longrightarrow> normalize_box b (w, h) = Inl OverflowError"
    using n by (simp add: normalize_box_eq)
  have ov: "e = OverflowError \<and> 2 ^ 1023 < \<bar>k\<bar>" if "float_of_int k = Inl e" for k e
    using float_of_int_overflow [OF that] int_overflow [of k] by simp
  have 4: "normalize_box b (w, h) = Inl ZeroDivisionError \<longrightarrow> w = 0 \<or> h = 0"
    using n ov [of w] ov [of h]
    by (auto simp add: normalize_box_eq split: sum.splits if_splits)
  have 5: "normalize_box b (w, h) = Inl OverflowError \<longrightarrow> 2 ^ 1023 < \<bar>w\<bar> \<or> 2 ^ 1023 < \<bar>h\<bar>"
    using n ov [of w] ov [of h]
    by (auto simp add: normalize_box_eq split: sum.splits if_splits)
  have 6: "\<forall>e. normalize_box b (w, h) = Inl e \<longrightarrow> e = ZeroDivisionError \<or> e = OverflowError"
    using n ov [of w] ov [of h]
    by (auto simp add: normalize_box_eq split: sum.splits if_splits)
  have 7: "0 < w \<and> w \<le> 2 ^ 1023 \<and> 0 < h \<and> h \<le> 2 ^ 1023 \<longrightarrow>
          (\<exists>b'. normalize_box b (w, h) = Inr b')"
    using n float_of_int_ok [OF int_bound, of w] float_of_int_ok [OF int_bound, of h]
    by (simp add: normalize_box_eq)
  from 1 2 3 4 5 6 7 show ?thesis by (intro conjI)
qed

theorem normalize_raises_on_zero_size_witness:
  "\<not> normalized \<lparr>coordinates = (Finite 16, Finite 32, Finite 48, Finite 96), format = XYXY,
        normalized = False\<rparr>
   \<and> normalize_box \<lparr>coordinates = (Finite 16, Finite 32, Finite 48, Finite 96), format = XYXY,
        normalized = False\<rparr> (640, 0) = Inl ZeroDivisionError
   \<and> normalize_box \<lparr>coordinates = (Finite 16, Finite 32, Finite 48, Finite 96), format = XYXY,
        normalized = False\<rparr> (0, 480) = Inl ZeroDivisionError
   \<and> (\<exists>b'. normalize_box \<lparr>coordinates = (Finite 16, Finite 32, Finite 48, Finite 96),
        format = XYXY, normalized = False\<rparr> (640, 480) = Inr b')"
  using normalize_raises_on_zero_size
      [of "\<lparr>coordinates = (Finite 16, Finite 32, Finite 48, Finite 96), format = XYXY,
          normalized = False\<rparr>" 640 0]
    normalize_raises_on_zero_size
      [of "\<lparr>coordinates = (Finite 16, Finite 32, Finite 48, Finite 96), format = XYXY,
          normalized = False\<rparr>" 0 480]
    normalize_raises_on_zero_size
      [of "\<lparr>coordinates = (Finite 16, Finite 32, Finite 48, Finite 96), format = XYXY,
          normalized = False\<rparr>" 640 480]
  by simp

text \<open>
  C10, as stated, fails: at the size \<open>(2 ^ 1024, 0)\<close>, whose height is zero, the first
  division raises \<open>OverflowError\<close>, not \<open>ZeroDivisionError\<close>.
\<close>

theorem normalize_zero_height_counterexample:
  "normalize_box \<lparr>coordinates = (Finite 1, Finite 2, Finite 3, Finite 4), format = XYXY,
      normalized = False\<rparr> (2 ^ 1024, 0) = Inl OverflowError
   \<and> normalize_box \<lparr>coordinates = (Finite 1, Finite 2, Finite 3, Finite 4), format = XYXY,
      normalized = False\<rparr> (2 ^ 1024, 0) \<noteq> Inl ZeroDivisionError"
  unfolding normalize_box_eq float_of_int_2_1024 by simp

text \<open>
  C4, as amended. For a box that is not normalized, with finite coordinates of
  magnitude at most \<open>2 ^ 1020\<close>, and a positive size with both dimensions at most
  \<open>2 ^ 1023\<close>: \<open>normalize\<close> returns a box, and \<open>denormalize\<close> of that box with the same
  size returns a box with the original format and flag, whose coordinates are finite
  and each within \<open>\<bar>c\<bar> / 2 ^ 51 + d * 2 powi (- 1073)\<close> of the original coordinate \<open>c\<close>,
  where \<open>d\<close> is the dimension that \<open>c\<close> was divided by.
\<close>

theorem normalize_denormalize_inverse:
  assumes n: "\<not> normalized b"
    and c: "coordinates b = (Finite c0, Finite c1, Finite c2, Finite c3)"
    and m: "\<bar>c0\<bar> \<le> 2 ^ 1020" "\<bar>c1\<bar> \<le> 2 ^ 1020" "\<bar>c2\<bar> \<le> 2 ^ 1020" "\<bar>c3\<bar> \<le> 2 ^ 1020"
    and w: "0 < w" "w \<le> 2 ^ 1023" and h: "0 < h" "h \<le> 2 ^ 1023"
  shows "\<exists>b' d0 d1 d2 d3.
      normalize_box b (w, h) = Inr b'
      \<and> denormalize b' (w, h)
          = Inr \<lparr>coordinates = (Finite d0, Finite d1, Finite d2, Finite d3),
                 format = format b, normalized = normalized b\<rparr>
      \<and> \<bar>d0 - c0\<bar> \<le> \<bar>c0\<bar> / 2 ^ 51 + real_of_int w * 2 powi (- 1073)
      \<and> \<bar>d1 - c1\<bar> \<le> \<bar>c1\<bar> / 2 ^ 51 + real_of_int h * 2 powi (- 1073)
      \<and> \<bar>d2 - c2\<bar> \<le> \<bar>c2\<bar> / 2 ^ 51 + real_of_int w * 2 powi (- 1073)
      \<and> \<bar>d3 - c3\<bar> \<le> \<bar>c3\<bar> / 2 ^ 51 + real_of_int h * 2 powi (- 1073)"
proof -
  have m': "\<bar>c0\<bar> \<le> big" "\<bar>c1\<bar> \<le> big" "\<bar>c2\<bar> \<le> big" "\<bar>c3\<bar> \<le> big"
    using m by (simp_all only: big_def)
  have w1: "1 \<le> w" and h1: "1 \<le> h" using w(1) h(1) by simp_all
  have wr: "real_of_int w \<le> 2 ^ 1023" and hr: "real_of_int h \<le> 2 ^ 1023"
    using int_bound [of w] int_bound [of h] w h by simp_all
  from div_mul_round_trip [OF m'(1) w1 wr] obtain W q0 d0 where
    0: "float_of_int w = Inr W" "W \<noteq> 0" "fdiv (Finite c0) W = Finite q0"
      "fmul (Finite q0) W = Finite d0"
      "\<bar>d0 - c0\<bar> \<le> \<bar>c0\<bar> / 2 ^ 51 + real_of_int w * 2 powi (- 1073)" by blast
  from div_mul_round_trip [OF m'(3) w1 wr] obtain W' q2 d2 where
    2: "float_of_int w = Inr W'" "fdiv (Finite c2) W' = Finite q2"
      "fmul (Finite q2) W' = Finite d2"
      "\<bar>d2 - c2\<bar> \<le> \<bar>c2\<bar> / 2 ^ 51 + real_of_int w * 2 powi (- 1073)" by blast
  from div_mul_round_trip [OF m'(2) h1 hr] obtain H q1 d1 where
    1: "float_of_int h = Inr H" "H \<noteq> 0" "fdiv (Finite c1) H = Finite q1"
      "fmul (Finite q1) H = Finite d1"
      "\<bar>d1 - c1\<bar> \<le> \<bar>c1\<bar> / 2 ^ 51 + real_of_int h * 2 powi (- 1073)" by blast
  from div_mul_round_trip [OF m'(4) h1 hr] obtain H' q3 d3 where
    3: "float_of_int h = Inr H'" "fdiv (Finite c3) H' = Finite q3"
      "fmul (Finite q3) H' = Finite d3"
      "\<bar>d3 - c3\<bar> \<le> \<bar>c3\<bar> / 2 ^ 51 + real_of_int h * 2 powi (- 1073)" by blast
  have same: "W' = W" "H' = H" using 0(1) 2(1) 1(1) 3(1) by simp_all
  define b' where "b' = \<lparr>coordinates = (Finite q0, Finite q1, Finite q2, Finite q3),
      format = format b, normalized = True\<rparr>"
  have nb: "normalize_box b (w, h) = Inr b'"
    using n c w(1) h(1) 0(1,3) 1(1,3) 2(2) 3(2) same
    by (simp add: normalize_box_eq b'_def)
  have db: "denormalize b' (w, h)
      = Inr \<lparr>coordinates = (Finite d0, Finite d1, Finite d2, Finite d3),
             format = format b, normalized = normalized b\<rparr>"
    using n 0(4) 1(4) 2(3) 3(3) same mul_int_ok [OF 0(1)] mul_int_ok [OF 1(1)]
    by (simp add: denormalize_def b'_def)
  from nb db 0(5) 1(5) 2(4) 3(4) show ?thesis by blast
qed

theorem normalize_denormalize_inverse_witness:
  "\<not> normalized \<lparr>coordinates = (Finite 16, Finite 32, Finite 48, Finite 96), format = XYXY,
        normalized = False\<rparr>
   \<and> \<bar>16 :: real\<bar> \<le> 2 ^ 1020 \<and> \<bar>96 :: real\<bar> \<le> 2 ^ 1020
   \<and> (0 :: int) < 64 \<and> (64 :: int) \<le> 2 ^ 1023 \<and> (0 :: int) < 128 \<and> (128 :: int) \<le> 2 ^ 1023
   \<and> (\<exists>b' d0 d1 d2 d3.
        normalize_box \<lparr>coordinates = (Finite 16, Finite 32, Finite 48, Finite 96),
          format = XYXY, normalized = False\<rparr> (64, 128) = Inr b'
        \<and> denormalize b' (64, 128)
            = Inr \<lparr>coordinates = (Finite d0, Finite d1, Finite d2, Finite d3),
                   format = XYXY, normalized = False\<rparr>
        \<and> \<bar>d0 - 16\<bar> \<le> 16 / 2 ^ 51 + 64 * 2 powi (- 1073)
        \<and> \<bar>d1 - 32\<bar> \<le> 32 / 2 ^ 51 + 128 * 2 powi (- 1073)
        \<and> \<bar>d2 - 48\<bar> \<le> 48 / 2 ^ 51 + 64 * 2 powi (- 1073)
        \<and> \<bar>d3 - 96\<bar> \<le> 96 / 2 ^ 51 + 128 * 2 powi (- 1073))"
proof -
  have n: "\<not> normalized \<lparr>coordinates = (Finite 16, Finite 32, Finite 48, Finite 96),
      format = XYXY, normalized = False\<rparr>" by simp
  have c: "coordinates \<lparr>coordinates = (Finite 16, Finite 32, Finite 48, Finite 96),
      format = XYXY, normalized = False\<rparr> = (Finite 16, Finite 32, Finite 48, Finite 96)"
    by simp
  have m: "\<bar>16 :: real\<bar> \<le> 2 ^ 1020" "\<bar>32 :: real\<bar> \<le> 2 ^ 1020" "\<bar>48 :: real\<bar> \<le> 2 ^ 1020"
    "\<bar>96 :: real\<bar> \<le> 2 ^ 1020" by simp_all
  have s: "(0 :: int) < 64" "(64 :: int) \<le> 2 ^ 1023" "(0 :: int) < 128" "(128 :: int) \<le> 2 ^ 1023"
    by simp_all
  from normalize_denormalize_inverse [OF n c m s] n m s show ?thesis by simp
qed

text \<open>
  C4, as stated, fails: the coordinates are not restored exactly. For the box
  \<open>(1, 1, 1, 1)\<close> and the size \<open>(49, 49)\<close>, \<open>normalize\<close> gives the coordinates
  \<open>0.02040816326530612\<close>, and \<open>denormalize\<close> gives \<open>0.9999999999999999\<close>, not \<open>1\<close>.
\<close>

theorem normalize_denormalize_binary64_counterexample:
  "normalize_box \<lparr>coordinates = (Finite 1, Finite 1, Finite 1, Finite 1), format = XYXY,
      normalized = False\<rparr> (49, 49)
     = Inr \<lparr>coordinates =
              (Finite (5882252574524729 / 288230376151711744),
               Finite (5882252574524729 / 288230376151711744),
               Finite (5882252574524729 / 288230376151711744),
               Finite (5882252574524729 / 288230376151711744)),
            format = XYXY, normalized = True\<rparr>
   \<and> denormalize
       \<lparr>coordinates =
          (Finite (5882252574524729 / 288230376151711744),
           Finite (5882252574524729 / 288230376151711744),
           Finite (5882252574524729 / 288230376151711744),
           Finite (5882252574524729 / 288230376151711744)),
        format = XYXY, normalized = True\<rparr> (49, 49)
     = Inr \<lparr>coordinates =
              (Finite (9007199254740991 / 9007199254740992),
               Finite (9007199254740991 / 9007199254740992),
               Finite (9007199254740991 / 9007199254740992),
               Finite (9007199254740991 / 9007199254740992)),
            format = XYXY, normalized = False\<rparr>
   \<and> Finite (9007199254740991 / 9007199254740992) \<noteq> Finite 1"
proof -
  have f: "float_of_int 49 = Inr 49"
    using float_of_int_ok [of 49] by (simp add: b64_49)
  have q: "round_float (1 / 49) = Finite (5882252574524729 / 288230376151711744)"
    using round_float_Finite [of "1 / 49"] by (simp add: b64_q)
  have r: "round_float (288230376151711721 / 288230376151711744)
      = Finite (9007199254740991 / 9007199254740992)"
    using round_float_Finite [of "288230376151711721 / 288230376151711744"]
    by (simp add: b64_r)
  show ?thesis
    by (simp add: normalize_box_eq denormalize_def mul_int_def f q r)
qed

section \<open>Properties of the format parser\<close>

lemma isspace_upper_char: "isspace (upper_char c) = isspace c"
  unfolding isspace_def upper_char_def
  by auto

lemma strip_upper: "strip (upper s) = upper (strip s)"
  by (simp add: strip_def upper_def dropWhile_map rev_map comp_def isspace_upper_char)

lemma dropWhile_all: "\<forall>x\<in>set xs. P x \<Longrightarrow> dropWhile P xs = []"
  by (induction xs) simp_all

lemma strip_pad:
  assumes "\<forall>c\<in>set l. isspace c" "\<forall>c\<in>set r. isspace c"
  shows "strip (l @ s @ r) = strip s"
proof (cases "\<forall>c\<in>set s. isspace c")
  case True
  with assms have "\<forall>c\<in>set (l @ s @ r). isspace c" by auto
  then have a: "dropWhile isspace (l @ s @ r) = []" by (rule dropWhile_all)
  from True have b: "dropWhile isspace s = []" by (rule dropWhile_all)
  show ?thesis unfolding strip_def a b by (rule refl)
next
  case False
  then obtain x where "x \<in> set s" "\<not> isspace x" by blast
  then have m: "dropWhile isspace (s @ r) = dropWhile isspace s @ r"
    by (simp add: dropWhile_append1)
  from assms(1) have a: "dropWhile isspace (l @ s @ r) = dropWhile isspace (s @ r)"
    by (intro dropWhile_append2) simp
  from assms(2) have b: "dropWhile isspace (rev r @ ys) = dropWhile isspace ys" for ys
    by (intro dropWhile_append2) simp
  show ?thesis unfolding strip_def a m rev_append b by (rule refl)
qed

lemma strip_decomp:
  "\<exists>l r. s = l @ strip s @ r \<and> (\<forall>c\<in>set l. isspace c) \<and> (\<forall>c\<in>set r. isspace c)"
proof -
  let ?l = "takeWhile isspace s"
  let ?m = "dropWhile isspace s"
  let ?r = "rev (takeWhile isspace (rev ?m))"
  have "rev ?m = takeWhile isspace (rev ?m) @ dropWhile isspace (rev ?m)" by simp
  then have "?m = strip s @ ?r"
    by (metis rev_append rev_rev_ident strip_def)
  then have "s = ?l @ strip s @ ?r" by (metis takeWhile_dropWhile_id)
  moreover have "\<forall>c\<in>set ?l. isspace c" by (auto dest: set_takeWhileD)
  moreover have "\<forall>c\<in>set ?r. isspace c" by (auto dest: set_takeWhileD)
  ultimately show ?thesis by blast
qed

lemma map_of_member_map: "map_of member_map k = Some f \<longleftrightarrow> k = member_name f"
  by (cases f) (auto simp add: member_map_def split: if_splits)

lemma from_str_Inr: "from_str s = Inr f \<longleftrightarrow> upper (strip s) = member_name f"
proof -
  have "from_str s = Inr f \<longleftrightarrow> map_of member_map (upper (strip s)) = Some f"
    by (simp add: from_str_def strip_upper split: option.split)
  then show ?thesis by (simp add: map_of_member_map)
qed

lemma strip_member_name: "strip (member_name f) = member_name f"
  by (cases f) (simp_all add: strip_def isspace_def)

text \<open>
  C6. \<open>from_str\<close> ignores case and surrounding whitespace: \<open>"xyxy"\<close>, \<open>"XYXY"\<close> and
  \<open>" xyxy "\<close> all give \<open>XYXY\<close>; a string gives the variant \<open>f\<close> exactly when it is the
  name of \<open>f\<close>, in any mix of upper and lower case, between two runs of whitespace.
  Every other string, such as \<open>"bogus"\<close>, raises \<open>KeyError\<close> (the specification's
  \<open>InvalidFormat\<close>) and returns no value.
\<close>

theorem from_str_parses:
  "from_str ''xyxy'' = Inr XYXY
   \<and> from_str ''XYXY'' = Inr XYXY
   \<and> from_str '' xyxy '' = Inr XYXY
   \<and> from_str ''bogus'' = Inl KeyError
   \<and> (from_str s = Inr f \<longleftrightarrow>
        (\<exists>l core r. s = l @ core @ r \<and> (\<forall>c\<in>set l. isspace c) \<and> (\<forall>c\<in>set r. isspace c)
           \<and> upper core = member_name f))
   \<and> (from_str s = Inl KeyError \<longleftrightarrow> (\<forall>g. from_str s \<noteq> Inr g))"
proof -
  have ex: "from_str ''xyxy'' = Inr XYXY" "from_str ''XYXY'' = Inr XYXY"
    "from_str '' xyxy '' = Inr XYXY" "from_str ''bogus'' = Inl KeyError"
    by code_simp+
  have char: "from_str s = Inr f \<longleftrightarrow>
        (\<exists>l core r. s = l @ core @ r \<and> (\<forall>c\<in>set l. isspace c) \<and> (\<forall>c\<in>set r. isspace c)
           \<and> upper core = member_name f)" (is "?L = ?R")
  proof
    assume ?L
    then have u: "upper (strip s) = member_name f" by (simp add: from_str_Inr)
    from strip_decomp [of s] u show ?R by blast
  next
    assume ?R
    then obtain l core r where s: "s = l @ core @ r"
      and ws: "\<forall>c\<in>set l. isspace c" "\<forall>c\<in>set r. isspace c"
      and u: "upper core = member_name f" by blast
    have "upper (strip s) = upper (strip core)" unfolding s using ws by (simp only: strip_pad)
    also have "\<dots> = strip (upper core)" by (simp add: strip_upper)
    also have "\<dots> = member_name f" by (simp add: u strip_member_name)
    finally show ?L by (simp add: from_str_Inr)
  qed
  have err: "from_str s = Inl KeyError \<longleftrightarrow> (\<forall>g. from_str s \<noteq> Inr g)"
    by (auto simp add: from_str_def split: option.splits)
  show ?thesis using ex char err by blast
qed

theorem from_str_parses_witness:
  "from_str ''  CxCyWh '' = Inr CXCYWH
   \<and> \<not> (\<exists>l core r. ''bogus'' = l @ core @ r \<and> (\<forall>c\<in>set l. isspace c)
          \<and> (\<forall>c\<in>set r. isspace c) \<and> upper core = member_name XYWH)"
proof -
  have a: "''  CxCyWh '' = ''  '' @ ''CxCyWh'' @ '' ''" by simp
  have b: "\<forall>c\<in>set ''  ''. isspace c" "\<forall>c\<in>set '' ''. isspace c"
    by (simp_all add: isspace_def)
  have c: "upper ''CxCyWh'' = member_name CXCYWH" by code_simp
  have d: "from_str ''bogus'' \<noteq> Inr XYWH" by code_simp
  from from_str_parses [of "''  CxCyWh ''" CXCYWH] a b c
  have "from_str ''  CxCyWh '' = Inr CXCYWH" by blast
  moreover from from_str_parses [of "''bogus''" XYWH] d
  have "\<not> (\<exists>l core r. ''bogus'' = l @ core @ r \<and> (\<forall>c\<in>set l. isspace c)
          \<and> (\<forall>c\<in>set r. isspace c) \<and> upper core = member_name XYWH)" by blast
  ultimately show ?thesis by blast
qed

section \<open>Properties of the dataset\<close>

lemma map_of_dict_insert_all:
  "map_of (dict_insert_all d ps) = map_of d ++ map_of (rev ps)"
  unfolding dict_insert_all_def
proof (induction ps arbitrary: d)
  case Nil
  then show ?case by simp
next
  case (Cons p ps)
  obtain k v where p: "p = (k, v)" by (cases p)
  have "map_of (AList.update k v d) ++ map_of (rev ps) = map_of d ++ (map_of (rev ps @ [(k, v)]))"
    by (rule ext) (simp add: update_conv' map_of_append map_add_def split: option.split)
  then show ?case
    by (simp add: Cons.IH p)
qed

lemma distinct_dict_insert_all:
  "distinct (map fst d) \<Longrightarrow> distinct (map fst (dict_insert_all d ps))"
  unfolding dict_insert_all_def
  by (induction ps arbitrary: d) (auto simp add: distinct_update)

lemma build_samples_keys:
  "build_samples path split data = Inr ps \<Longrightarrow> map fst ps = map sd_id data"
  by (induction data arbitrary: ps)
    (auto simp add: get_sample_def Let_def split: sum.splits)

lemma build_samples_mem:
  "build_samples path split data = Inr ps \<Longrightarrow> p \<in> set ps \<Longrightarrow>
     \<exists>r\<in>set data. get_sample path split r = Inr p"
  by (induction data arbitrary: ps) (auto split: sum.splits)

lemma get_sample_fields:
  "get_sample path split r = Inr (k, s) \<Longrightarrow>
     k = sd_id r \<and> splits s = [split] \<and> image_path s = path @ [''images'', split, sd_id r @ ''.jpg'']
     \<and> actions s = get_actions (sd_actions r) \<and> get_entities (sd_entities r) = Inr (entities s)"
  by (auto simp add: get_sample_def Let_def split: sum.splits)

lemma distinct_filter_one:
  "distinct (map fst d) \<Longrightarrow> k \<in> fst ` set d \<Longrightarrow> length (filter (\<lambda>p. fst p = k) d) = 1"
  by (induction d) (auto simp add: image_iff filter_empty_conv)

text \<open>
  The example of the specification: one sample in \<open>train.json\<close>, none in \<open>test.json\<close>.
\<close>

lemma spec_example_load:
  "H2ODataset_init [''root'']
     \<lparr>categories_json = Inr [''person'', ''ball''], verbs_json = Inr [''kick''],
      split_json = (\<lambda>split.
        if split = ''train'' then
          Inr [\<lparr>sd_id = ''0001'',
                sd_entities = [\<lparr>ed_bbox = [1 / 10, 1 / 10, 1 / 2, 1 / 2], ed_category = ''person''\<rparr>],
                sd_actions = [\<lparr>ad_verb = ''kick'', ad_subject = 0, ad_target = None,
                               ad_instrument = None\<rparr>]\<rparr>]
        else if split = ''test'' then Inr [] else Inl OSError)\<rparr>
   = Inr \<lparr>ds_path = [''root''], ds_categories = [''person'', ''ball''], ds_verbs = [''kick''],
          ds_samples =
            [(''0001'',
              \<lparr>image_path = [''root'', ''images'', ''train'', ''0001.jpg''],
               entities = [\<lparr>bbox = \<lparr>coordinates = (1 / 10, 1 / 10, 1 / 2, 1 / 2), format = XYXY,
                                     normalized = True\<rparr>, category = ''person''\<rparr>],
               actions = [\<lparr>verb = ''kick'', subject = 0, target = None, instrument = None\<rparr>],
               splits = [''train'']\<rparr>)]\<rparr>"
  by (simp add: H2ODataset_init_def H2O_splits_def get_samples_def get_sample_def
      BoundingBox_init_def get_actions_def dict_insert_all_def)

text \<open>
  C8. When \<open>train.json\<close> and \<open>test.json\<close> both have a record with the same id, the
  dataset that \<open>__init__\<close> builds has exactly one entry for that id, and the entry is
  the sample built from a record of \<open>test.json\<close>, the split loaded last: its image path
  is under \<open>images/test\<close>, its splits are \<open>["test"]\<close>, and it is the last entry of
  \<open>_get_samples("test")\<close> with that id.
\<close>

theorem duplicate_id_last_write_wins:
  assumes init: "H2ODataset_init path fs = Inr ds"
    and tr: "split_json fs ''train'' = Inr train"
    and te: "split_json fs ''test'' = Inr test"
    and i_tr: "i \<in> sd_id ` set train"
    and i_te: "i \<in> sd_id ` set test"
  shows "length (filter (\<lambda>p. fst p = i) (ds_samples ds)) = 1
    \<and> (\<exists>r s. r \<in> set test \<and> sd_id r = i
          \<and> get_sample path ''test'' r = Inr (i, s)
          \<and> getitem ds i = Inr s
          \<and> splits s = [''test'']
          \<and> image_path s = path @ [''images'', ''test'', i @ ''.jpg''])
    \<and> (\<exists>ps. get_samples path fs ''test'' = Inr ps
          \<and> map_of (ds_samples ds) i = map_of (rev ps) i)"
proof -
  from init obtain d where d: "comprehension path fs H2O_splits [] = Inr d"
    and ds: "ds_samples ds = d"
    by (auto simp add: H2ODataset_init_def split: sum.splits)
  from d obtain trs tes where trs: "get_samples path fs ''train'' = Inr trs"
    and tes: "get_samples path fs ''test'' = Inr tes"
    and dd: "d = dict_insert_all (dict_insert_all [] trs) tes"
    by (auto simp add: H2O_splits_def split: sum.splits)
  from tes te have bt: "build_samples path ''test'' test = Inr tes"
    by (simp add: get_samples_def)
  have keys: "map fst tes = map sd_id test" using bt by (rule build_samples_keys)
  have "i \<in> fst ` set (rev tes)" using i_te keys by (metis list.set_map set_rev)
  then obtain s where s: "map_of (rev tes) i = Some s"
    by (metis domD dom_map_of_conv_image_fst)
  then have mem: "(i, s) \<in> set tes" by (metis map_of_SomeD set_rev)
  then obtain r where r: "r \<in> set test" "get_sample path ''test'' r = Inr (i, s)"
    using build_samples_mem [OF bt] by blast
  have look: "map_of (ds_samples ds) i = Some s"
    by (simp add: ds dd map_of_dict_insert_all s)
  have dist: "distinct (map fst (ds_samples ds))"
    unfolding ds dd by (intro distinct_dict_insert_all) simp
  have "i \<in> fst ` set (ds_samples ds)"
    using look by (metis domI dom_map_of_conv_image_fst)
  with dist have one: "length (filter (\<lambda>p. fst p = i) (ds_samples ds)) = 1"
    by (rule distinct_filter_one)
  from get_sample_fields [OF r(2)] r(1) look have
    "r \<in> set test \<and> sd_id r = i \<and> get_sample path ''test'' r = Inr (i, s)
       \<and> getitem ds i = Inr s \<and> splits s = [''test'']
       \<and> image_path s = path @ [''images'', ''test'', i @ ''.jpg'']"
    using r(2) by (simp add: getitem_def)
  then show ?thesis using one tes look s by metis
qed

theorem duplicate_id_last_write_wins_witness:
  "\<exists>ds s.
     H2ODataset_init [''root'']
       \<lparr>categories_json = Inr [''person'', ''ball''], verbs_json = Inr [''kick''],
        split_json = (\<lambda>split.
          if split = ''train'' then
            Inr [\<lparr>sd_id = ''0001'',
                  sd_entities = [\<lparr>ed_bbox = [1 / 10, 1 / 10, 1 / 2, 1 / 2],
                                  ed_category = ''person''\<rparr>],
                  sd_actions = [\<lparr>ad_verb = ''kick'', ad_subject = 0, ad_target = None,
                                 ad_instrument = None\<rparr>]\<rparr>]
          else if split = ''test'' then
            Inr [\<lparr>sd_id = ''0001'',
                  sd_entities = [\<lparr>ed_bbox = [0, 0, 1, 1], ed_category = ''ball''\<rparr>],
                  sd_actions = []\<rparr>]
          else Inl OSError)\<rparr> = Inr ds
     \<and> length (filter (\<lambda>p. fst p = ''0001'') (ds_samples ds)) = 1
     \<and> getitem ds ''0001'' = Inr s
     \<and> splits s = [''test'']
     \<and> image_path s = [''root'', ''images'', ''test'', ''0001.jpg'']"
proof -
  let ?tr = "[\<lparr>sd_id = ''0001'',
                  sd_entities = [\<lparr>ed_bbox = [1 / 10, 1 / 10, 1 / 2, 1 / 2],
                                  ed_category = ''person''\<rparr>],
                  sd_actions = [\<lparr>ad_verb = ''kick'', ad_subject = 0, ad_target = None,
                                 ad_instrument = None\<rparr>]\<rparr>]"
  let ?te = "[\<lparr>sd_id = ''0001'',
                  sd_entities = [\<lparr>ed_bbox = [0, 0, 1, 1], ed_category = ''ball''\<rparr>],
                  sd_actions = []\<rparr>]"
  let ?fs = "\<lparr>categories_json = Inr [''person'', ''ball''], verbs_json = Inr [''kick''],
        split_json = (\<lambda>split.
          if split = ''train'' then Inr ?tr
          else if split = ''test'' then Inr ?te
          else Inl OSError)\<rparr>"
  obtain ds where init: "H2ODataset_init [''root''] ?fs = Inr ds"
    by (simp add: H2ODataset_init_def H2O_splits_def get_samples_def get_sample_def
        BoundingBox_init_def get_actions_def dict_insert_all_def)
  have tr: "split_json ?fs ''train'' = Inr ?tr" by simp
  have te: "split_json ?fs ''test'' = Inr ?te" by simp
  have i1: "''0001'' \<in> sd_id ` set ?tr" by simp
  have i2: "''0001'' \<in> sd_id ` set ?te" by simp
  from duplicate_id_last_write_wins [OF init tr te i1 i2] init
  show ?thesis by (simp del: One_nat_def) blast
qed

text \<open>
  C9. Looking up an id that is a key of the dataset returns the sample stored under
  it; looking up any other id raises \<open>KeyError\<close> (the specification's \<open>SampleNotFound\<close>):
  an error value, never a sample.
\<close>

theorem getitem_found_or_KeyError:
  "(i \<in> fst ` set (ds_samples ds) \<longrightarrow>
      (\<exists>s. getitem ds i = Inr s \<and> (i, s) \<in> set (ds_samples ds)
         \<and> map_of (ds_samples ds) i = Some s))
   \<and> (i \<notin> fst ` set (ds_samples ds) \<longrightarrow> getitem ds i = Inl KeyError)"
proof (cases "map_of (ds_samples ds) i")
  case None
  then have "i \<notin> fst ` set (ds_samples ds)" by (simp add: map_of_eq_None_iff)
  with None show ?thesis by (simp add: getitem_def)
next
  case (Some s)
  then have "(i, s) \<in> set (ds_samples ds)" by (rule map_of_SomeD)
  moreover from this have "i \<in> fst ` set (ds_samples ds)" by force
  ultimately show ?thesis using Some by (simp add: getitem_def)
qed

theorem getitem_found_or_KeyError_witness:
  "getitem \<lparr>ds_path = [''root''], ds_categories = [''person'', ''ball''],
            ds_verbs = [''kick''],
            ds_samples = [(''0001'', \<lparr>image_path = [''root'', ''images'', ''train'', ''0001.jpg''],
                                     entities = [], actions = [], splits = [''train'']\<rparr>)]\<rparr>
     ''0001''
     = Inr \<lparr>image_path = [''root'', ''images'', ''train'', ''0001.jpg''],
            entities = [], actions = [], splits = [''train'']\<rparr>
   \<and> getitem \<lparr>ds_path = [''root''], ds_categories = [''person'', ''ball''],
            ds_verbs = [''kick''],
            ds_samples = [(''0001'', \<lparr>image_path = [''root'', ''images'', ''train'', ''0001.jpg''],
                                     entities = [], actions = [], splits = [''train'']\<rparr>)]\<rparr>
     ''0002'' = Inl KeyError"
  using getitem_found_or_KeyError
    [of "''0001''" "\<lparr>ds_path = [''root''], ds_categories = [''person'', ''ball''],
            ds_verbs = [''kick''],
            ds_samples = [(''0001'', \<lparr>image_path = [''root'', ''images'', ''train'', ''0001.jpg''],
                                     entities = [], actions = [], splits = [''train'']\<rparr>)]\<rparr>"]
    getitem_found_or_KeyError
    [of "''0002''" "\<lparr>ds_path = [''root''], ds_categories = [''person'', ''ball''],
            ds_verbs = [''kick''],
            ds_samples = [(''0001'', \<lparr>image_path = [''root'', ''images'', ''train'', ''0001.jpg''],
                                     entities = [], actions = [], splits = [''train'']\<rparr>)]\<rparr>"]
  by simp

end
